(* ===== verification/Prelude.thy ===== *)
theory Prelude
  imports Complex_Main "HOL-Library.Stream"
begin

text \<open>
  Shared vocabulary of the development: the JavaScript notions the component
  relies on (truthiness of an optional string, \<^verbatim>\<open>Math.floor(Math.random() * n)\<close>)
  and the source of randomness.  Every call of \<^verbatim>\<open>Math.random()\<close> in
  \<^verbatim>\<open>src/src/components/MainComponen.js\<close> draws the next value of one global
  generator; the model threads that generator explicitly as an infinite stream of
  reals, and a well-formed generator yields values in \<open>[0, 1)\<close>, as the
  ECMAScript specification of \<^verbatim>\<open>Math.random\<close> promises.
\<close>

named_theorems rng_simps "facts about well-formed random streams"

type_synonym rng = "real stream"

definition rng_wf :: "rng \<Rightarrow> bool" where
  "rng_wf rs \<longleftrightarrow> sset rs \<subseteq> {0..<1}"

text \<open>\<^verbatim>\<open>Math.floor(r * n)\<close> for a draw \<open>r\<close> and a length \<open>n\<close>, read as a list index.\<close>

definition random_index :: "real \<Rightarrow> nat \<Rightarrow> nat" where
  "random_index r n = nat \<lfloor>r * real n\<rfloor>"

text \<open>JavaScript truthiness of a value that is \<^verbatim>\<open>undefined\<close> or a string:
  \<^verbatim>\<open>undefined\<close> and the empty string are falsy.\<close>

definition js_truthy :: "string option \<Rightarrow> bool" where
  "js_truthy v = (case v of None \<Rightarrow> False | Some s \<Rightarrow> s \<noteq> [])"

text \<open>Reading a string back, as a receiving service does: \<open>split_on\<close> is
  \<^verbatim>\<open>String.prototype.split\<close> on one character, \<open>split_at\<close> cuts at the first
  occurrence of a character and drops it, and \<open>query_params\<close> reads the
  \<^verbatim>\<open>key=value\<close> pairs after the \<^verbatim>\<open>?\<close> of a URL.\<close>

fun split_on :: "char \<Rightarrow> string \<Rightarrow> string list" where
  "split_on c [] = [[]]"
| "split_on c (x # xs) =
     (if x = c then [] # split_on c xs
      else (case split_on c xs of w # ws \<Rightarrow> (x # w) # ws | [] \<Rightarrow> [[x]]))"

definition split_at :: "char \<Rightarrow> string \<Rightarrow> string \<times> string" where
  "split_at c s = (takeWhile (\<lambda>x. x \<noteq> c) s, drop 1 (dropWhile (\<lambda>x. x \<noteq> c) s))"

definition query_params :: "string \<Rightarrow> (string \<times> string) list" where
  "query_params url =
     map (split_at (CHR ''='')) (split_on (CHR ''&'') (snd (split_at (CHR ''?'') url)))"

subsection \<open>Well-formed random streams\<close>

lemma rng_wf_shd: "rng_wf rs \<Longrightarrow> 0 \<le> shd rs \<and> shd rs < 1"
  using shd_sset [of rs] by (auto simp: rng_wf_def)

lemma rng_wf_stl: "rng_wf rs \<Longrightarrow> rng_wf (stl rs)"
  using stl_sset [of _ rs] by (auto simp: rng_wf_def)

lemma rng_wf_shift [rng_simps]: "rng_wf (xs @- rs) \<longleftrightarrow> set xs \<subseteq> {0..<1} \<and> rng_wf rs"
  by (auto simp: rng_wf_def)

lemma rng_wf_Stream [rng_simps]: "rng_wf (r ## rs) \<longleftrightarrow> 0 \<le> r \<and> r < 1 \<and> rng_wf rs"
  by (auto simp: rng_wf_def)

lemma rng_wf_sconst [rng_simps]: "rng_wf (sconst r) \<longleftrightarrow> 0 \<le> r \<and> r < 1"
  by (simp add: rng_wf_def)

subsection \<open>Random indices\<close>

lemma random_index_eq:
  assumes "0 < n" "real i / real n \<le> r" "r < real (Suc i) / real n"
  shows "random_index r n = i"
proof -
  from assms have "real i \<le> r * real n" and "r * real n < real i + 1"
    by (simp_all add: field_simps)
  then have "\<lfloor>r * real n\<rfloor> = int i"
    by (simp add: floor_eq_iff)
  then show ?thesis by (simp add: random_index_def)
qed

lemma random_index_less:
  assumes "0 \<le> r" "r < 1" "0 < n"
  shows "random_index r n < n"
proof -
  from assms have "r * real n < real n" by simp
  then have "\<lfloor>r * real n\<rfloor> < int n"
    by (simp add: floor_less_iff)
  with assms(1) show ?thesis by (simp add: random_index_def nat_less_iff)
qed

lemma random_index_frac: "i < n \<Longrightarrow> random_index (real i / real n) n = i"
  by (rule random_index_eq) (simp_all add: divide_strict_right_mono)

lemma js_truthy_Some [simp]: "js_truthy (Some s) \<longleftrightarrow> s \<noteq> []"
  and js_truthy_None [simp]: "\<not> js_truthy None"
  by (simp_all add: js_truthy_def)

lemma rng_wf_sdrop: "rng_wf rs \<Longrightarrow> rng_wf (sdrop m rs)"
  by (induction m arbitrary: rs) (simp_all add: rng_wf_stl)

subsection \<open>Splitting strings\<close>

lemma split_on_not_Nil [simp]: "split_on c xs \<noteq> []"
  by (induction xs) (auto split: list.splits)

lemma split_on_append_no_sep [simp]:
  "c \<notin> set xs \<Longrightarrow>
   split_on c (xs @ ys) = (case split_on c ys of [] \<Rightarrow> [xs] | w # ws \<Rightarrow> (xs @ w) # ws)"
  by (induction xs) (auto split: list.splits)

lemma split_on_no_sep [simp]: "c \<notin> set xs \<Longrightarrow> split_on c xs = [xs]"
  by (induction xs) auto

lemma split_at_append_sep [simp]: "c \<notin> set xs \<Longrightarrow> split_at c (xs @ c # ys) = (xs, ys)"
  by (induction xs) (auto simp: split_at_def)

lemma split_at_no_sep [simp]: "c \<notin> set xs \<Longrightarrow> split_at c xs = (xs, [])"
  by (induction xs) (auto simp: split_at_def)

end
