(* ===== verification/MoodMapper.thy ===== *)
theory MoodMapper
  imports Prelude
begin

text \<open>
  The presentation tables of \<^verbatim>\<open>src/src/components/MainComponen.js\<close>: the quote pool
  \<^verbatim>\<open>quotes\<close> (lines 20--56), the gradient switch \<^verbatim>\<open>getBackgroundColor\<close> (69--88),
  the quote draw \<^verbatim>\<open>getRandomQuote\<close> (100--107), the spoken announcement
  \<^verbatim>\<open>announceEmotion\<close> (110--114) and the seven mood buttons (219--227).  Moods are
  strings in the code; the datatype \<open>mood\<close> names the seven labels the buttons offer.
\<close>

datatype mood = Happy | Sad | Surprised | Fearful | Angry | Disgusted | Neutral

primrec mood_name :: "mood \<Rightarrow> string" where
  "mood_name Happy = ''Happy''"
| "mood_name Sad = ''Sad''"
| "mood_name Surprised = ''Surprised''"
| "mood_name Fearful = ''Fearful''"
| "mood_name Angry = ''Angry''"
| "mood_name Disgusted = ''Disgusted''"
| "mood_name Neutral = ''Neutral''"

text \<open>The object literal \<^verbatim>\<open>quotes\<close>, its keys in source order.\<close>

definition quotes :: "(string \<times> string list) list" where
  "quotes =
    [(''Happy'',
       [''Happiness is not something ready-made. It comes from your own actions.'',
        ''The purpose of our lives is to be happy.'',
        ''Happiness is a direction, not a place.'']),
     (''Sad'',
       [''Tears come from the heart and not from the brain.'',
        ''Every man has his secret sorrows which the world knows not.'',
        ''Sadness is but a wall between two gardens.'']),
     (''Surprised'',
       [''Surprise is the greatest gift which life can grant us.'',
        ''The unexpected is what makes life interesting.'',
        ''Sometimes you have to take a leap of faith.'']),
     (''Fearful'',
       [''The only thing we have to fear is fear itself.'',
        ''Do one thing every day that scares you.'',
        ''Fear is only as deep as the mind allows.'']),
     (''Angry'',
       [''For every minute you are angry you lose sixty seconds of happiness.'',
        ''Anger is a fuel that can take you anywhere.'',
        ''Holding onto anger is like drinking poison and expecting the other person to die.'']),
     (''Disgusted'',
       [''Disgust is the feeling of a disconnected mind and body.'',
        ''Disgust is the mother of morality.'',
        ''To be disgusted is to be human.'']),
     (''Neutral'',
       [''Sometimes, the most productive thing you can do is relax.'',
        ''Keep calm and carry on.'',
        ''Life is not about waiting for the storm to pass but learning to dance in the rain.''])]"

text \<open>The labels of the seven mood buttons (the emoji beside them is display only).\<close>

definition emotion_buttons :: "string list" where
  "emotion_buttons = [''Happy'', ''Sad'', ''Surprised'', ''Fearful'', ''Angry'', ''Disgusted'', ''Neutral'']"

definition getBackgroundColor :: "string \<Rightarrow> string" where
  "getBackgroundColor mood =
    (if mood = ''Happy'' then ''linear-gradient(135deg, #fceabb 0%, #f8b500 100%)''
     else if mood = ''Sad'' then ''linear-gradient(135deg, #89f7fe 0%, #66a6ff 100%)''
     else if mood = ''Surprised'' then ''linear-gradient(135deg, #ffecd2 0%, #fcb69f 100%)''
     else if mood = ''Fearful'' then ''linear-gradient(135deg, #cbbacc 0%, #2580b3 100%)''
     else if mood = ''Angry'' then ''linear-gradient(135deg, #ff0844 0%, #ffb199 100%)''
     else if mood = ''Disgusted'' then ''linear-gradient(135deg, #76b852 0%, #8dc26f 100%)''
     else if mood = ''Neutral'' then ''linear-gradient(135deg, #e0eafc 0%, #cfdef3 100%)''
     else ''linear-gradient(135deg, #000000 0%, #434343 100%)'')"

text \<open>
  The properties every plain object such as the literal \<^verbatim>\<open>quotes\<close> inherits from
  \<^verbatim>\<open>Object.prototype\<close> (ECMAScript 2023, section 20.1.3 and Annex B.2.2).  Each is a
  function, except \<^verbatim>\<open>__proto__\<close>, which is \<^verbatim>\<open>Object.prototype\<close> itself: all truthy.
\<close>

definition object_prototype_keys :: "string list" where
  "object_prototype_keys =
     [''constructor'', ''__defineGetter__'', ''__defineSetter__'', ''hasOwnProperty'',
      ''__lookupGetter__'', ''__lookupSetter__'', ''isPrototypeOf'', ''propertyIsEnumerable'',
      ''toString'', ''valueOf'', ''__proto__'', ''toLocaleString'']"

text \<open>
  \<^verbatim>\<open>getRandomQuote\<close> (lines 100--107).  The result is a JavaScript value, a string or
  \<^verbatim>\<open>undefined\<close> (\<open>None\<close>), with the generator after the call.  \<^verbatim>\<open>quotes[mood]\<close>
  finds the literal's own key first and else an inherited \<^verbatim>\<open>Object.prototype\<close>
  member.  For an own key the quote at \<^verbatim>\<open>Math.floor(Math.random() * length)\<close> is
  returned.  For an inherited member \<^verbatim>\<open>quotesArray\<close> is truthy, so
  \<^verbatim>\<open>Math.random()\<close> is drawn, but indexing a function (or \<^verbatim>\<open>Object.prototype\<close>,
  whose \<^verbatim>\<open>length\<close> is \<^verbatim>\<open>undefined\<close>) gives \<^verbatim>\<open>undefined\<close>.  Any other mood
  returns \<^verbatim>\<open>""\<close> with no draw.
\<close>

definition getRandomQuote :: "string \<Rightarrow> rng \<Rightarrow> string option \<times> rng" where
  "getRandomQuote mood rs =
    (case map_of quotes mood of
       Some quotesArray \<Rightarrow>
         (let randomIndex = random_index (shd rs) (length quotesArray)
          in (Some (quotesArray ! randomIndex), stl rs))
     | None \<Rightarrow>
         if mood \<in> set object_prototype_keys then (None, stl rs) else (Some '''', rs))"

record utterance =
  utter_text :: string
  utter_lang :: string

definition announceEmotion :: "string \<Rightarrow> utterance" where
  "announceEmotion mood = \<lparr>utter_text = ''Playing '' @ mood @ '' songs.'', utter_lang = ''en-US''\<rparr>"

text \<open>What the code makes of the quote for a mood: one of the mood's quotes; for a
  mood with no pool \<^verbatim>\<open>undefined\<close> when it names an \<^verbatim>\<open>Object.prototype\<close> member and
  the empty string otherwise.\<close>

definition quote_fits :: "string \<Rightarrow> string option \<Rightarrow> bool" where
  "quote_fits mood q =
     (case map_of quotes mood of
        Some qs \<Rightarrow> (case q of Some x \<Rightarrow> x \<in> set qs | None \<Rightarrow> False)
      | None \<Rightarrow> q = (if mood \<in> set object_prototype_keys then None else Some []))"

subsection \<open>The tables agree\<close>

lemma quotes_pool_nonempty: "map_of quotes mood = Some qs \<Longrightarrow> qs \<noteq> []"
  by (auto simp: quotes_def split: if_splits)

lemma map_of_quotes_None_iff: "map_of quotes mood = None \<longleftrightarrow> mood \<notin> set emotion_buttons"
  by (simp add: quotes_def emotion_buttons_def)

lemma mood_name_buttons:
  "map mood_name [Happy, Sad, Surprised, Fearful, Angry, Disgusted, Neutral] = emotion_buttons"
  by (simp add: emotion_buttons_def)

lemma mood_name_in_buttons [simp]: "mood_name m \<in> set emotion_buttons"
  by (cases m) (simp_all add: emotion_buttons_def)

text \<open>C24: the quote pool has exactly the seven button labels as keys, in button
  order, with three quotes each.\<close>

lemma quote_tables_agree:
  "map fst quotes = emotion_buttons \<and> map (length \<circ> snd) quotes = replicate 7 3"
  by (simp add: quotes_def emotion_buttons_def eval_nat_numeral)

subsection \<open>Gradients\<close>

text \<open>C22: the seven moods and any other string get eight pairwise distinct
  gradients.\<close>

lemma getBackgroundColor_distinct:
  "distinct (map getBackgroundColor (emotion_buttons @ [''unknown'']))"
  by (simp add: getBackgroundColor_def emotion_buttons_def)

text \<open>C23: a mood that is not one of the seven labels gets the black default gradient;
  the switch never fails.\<close>

lemma getBackgroundColor_default:
  "mood \<notin> set emotion_buttons \<Longrightarrow>
   getBackgroundColor mood = ''linear-gradient(135deg, #000000 0%, #434343 100%)''"
  by (simp add: getBackgroundColor_def emotion_buttons_def)

subsection \<open>Quotes\<close>

text \<open>C19: for a configured mood the quote drawn is one of the mood's quotes, and the
  draw consumes exactly one value of the generator.\<close>

lemma getRandomQuote_in_pool:
  assumes "rng_wf rs" "map_of quotes mood = Some qs"
  shows "fst (getRandomQuote mood rs) \<in> Some ` set qs \<and> snd (getRandomQuote mood rs) = stl rs"
proof -
  have "random_index (shd rs) (length qs) < length qs"
    using assms quotes_pool_nonempty [OF assms(2)] by (simp add: random_index_less rng_wf_shd)
  with assms(2) show ?thesis by (simp add: getRandomQuote_def Let_def)
qed

text \<open>C20: a mood that is not one of the seven labels has no pool.  If it names an
  \<^verbatim>\<open>Object.prototype\<close> member (\<^verbatim>\<open>constructor\<close>, \<^verbatim>\<open>toString\<close>, ...), the lookup
  finds the inherited member, one value is drawn, and the quote is \<^verbatim>\<open>undefined\<close>.  Any
  other such mood gets the empty string, and no value is drawn.\<close>

lemma getRandomQuote_unconfigured:
  "mood \<notin> set emotion_buttons \<Longrightarrow>
   getRandomQuote mood rs =
     (if mood \<in> set object_prototype_keys then (None, stl rs) else (Some '''', rs))"
  using map_of_quotes_None_iff [of mood] by (simp add: getRandomQuote_def)

text \<open>C21: the \<open>i\<close>-th quote of a pool of \<open>n\<close> is chosen exactly when the draw
  falls in \<open>[i/n, (i+1)/n)\<close>, an interval of width \<open>1/n\<close>: the choice is uniform.\<close>

lemma getRandomQuote_interval:
  assumes "map_of quotes mood = Some qs" "i < length qs"
    and "real i / real (length qs) \<le> shd rs" "shd rs < real (Suc i) / real (length qs)"
  shows "getRandomQuote mood rs = (Some (qs ! i), stl rs)"
proof -
  have "random_index (shd rs) (length qs) = i"
    using assms quotes_pool_nonempty [OF assms(1)] by (intro random_index_eq) simp_all
  with assms(1) show ?thesis by (simp add: getRandomQuote_def)
qed

lemma rng_wf_getRandomQuote: "rng_wf rs \<Longrightarrow> rng_wf (snd (getRandomQuote mood rs))"
  by (simp add: getRandomQuote_def rng_wf_stl Let_def split: option.splits)

lemma getRandomQuote_fits: "rng_wf rs \<Longrightarrow> quote_fits mood (fst (getRandomQuote mood rs))"
proof (cases "map_of quotes mood")
  case None
  then show ?thesis by (simp add: getRandomQuote_def quote_fits_def split: if_splits)
next
  case (Some qs)
  moreover assume "rng_wf rs"
  moreover have "0 < length qs" using quotes_pool_nonempty [OF Some] by simp
  ultimately show ?thesis
    by (simp add: getRandomQuote_def quote_fits_def Let_def random_index_less rng_wf_shd)
qed

subsection \<open>Witnesses\<close>

lemma getBackgroundColor_default_witness:
  "''Bored'' \<notin> set emotion_buttons \<and>
   getBackgroundColor ''Bored'' = ''linear-gradient(135deg, #000000 0%, #434343 100%)''"
proof -
  have h: "''Bored'' \<notin> set emotion_buttons" by (simp add: emotion_buttons_def)
  with getBackgroundColor_default [OF h] show ?thesis by simp
qed

lemma getRandomQuote_in_pool_witness:
  "rng_wf (sconst (1/2)) \<and> map_of quotes ''Sad'' = Some (snd (quotes ! 1)) \<and>
   fst (getRandomQuote ''Sad'' (sconst (1/2))) \<in> Some ` set (snd (quotes ! 1))"
proof -
  have wf: "rng_wf (sconst (1/2 :: real))" by (simp add: rng_simps)
  have m: "map_of quotes ''Sad'' = Some (snd (quotes ! 1))" by (simp add: quotes_def)
  from getRandomQuote_in_pool [OF wf m] wf m show ?thesis by simp
qed

lemma getRandomQuote_unconfigured_witness:
  "''sad'' \<notin> set emotion_buttons \<and> getRandomQuote ''sad'' (sconst 0) = (Some '''', sconst 0) \<and>
   ''constructor'' \<notin> set emotion_buttons \<and>
   getRandomQuote ''constructor'' ((1/2) ## sconst 0) = (None, sconst 0)"
proof -
  have h: "''sad'' \<notin> set emotion_buttons" by (simp add: emotion_buttons_def)
  have c: "''constructor'' \<notin> set emotion_buttons" by (simp add: emotion_buttons_def)
  from getRandomQuote_unconfigured [OF h, of "sconst 0"]
    getRandomQuote_unconfigured [OF c, of "(1/2) ## sconst 0"] h c
  show ?thesis by (simp add: object_prototype_keys_def)
qed

lemma getRandomQuote_interval_witness:
  "getRandomQuote ''Neutral'' ((7/10) ## sconst 0)
     = (Some ''Life is not about waiting for the storm to pass but learning to dance in the rain.'',
        sconst 0)"
proof -
  have m: "map_of quotes ''Neutral'' = Some (snd (quotes ! 6))" by (simp add: quotes_def)
  have "getRandomQuote ''Neutral'' ((7/10) ## sconst 0) = (Some (snd (quotes ! 6) ! 2), sconst 0)"
    using getRandomQuote_interval [OF m, of 2 "(7/10) ## sconst 0"] by (simp add: quotes_def)
  then show ?thesis by (simp add: quotes_def)
qed

end
