(* ===== verification/Selector.thy ===== *)
theory Selector
  imports Prelude
begin

text \<open>
  The song selection of the search-response handler of
  \<^verbatim>\<open>src/src/components/MainComponen.js\<close>, lines 180--190: draw
  \<^verbatim>\<open>randomCount = Math.floor(Math.random() * 3) + 3\<close>, then loop
  \<^verbatim>\<open>while (songIndexes.size < randomCount)\<close>, drawing an index
  \<^verbatim>\<open>Math.floor(Math.random() * songs.length)\<close> each round and keeping it when the
  set \<^verbatim>\<open>songIndexes\<close> does not hold it yet.  The loop is rejection sampling
  with no bound on the number of rounds, so it is a \<^theory_text>\<open>partial_function (option)\<close>
  over the random stream: \<open>None\<close> is a loop that never exits.  The theory proves
  what it returns (a duplicate-free choice of \<open>randomCount\<close> indices, the abstract
  contract \<open>select_spec\<close>), exactly when it returns (some finite prefix of the
  draws holds \<open>randomCount\<close> distinct indices), that every outcome of the
  contract is produced by some generator, and that it never returns when fewer songs
  than \<open>randomCount\<close> came back.
\<close>

definition random_count :: "real \<Rightarrow> nat" where
  "random_count r = random_index r 3 + 3"

text \<open>The \<^verbatim>\<open>while\<close> loop of lines 184--190; \<open>sel\<close> is \<^verbatim>\<open>randomSelectedSongs\<close>.\<close>

partial_function (option) pick_songs ::
  "'t list \<Rightarrow> nat \<Rightarrow> 't list \<Rightarrow> nat set \<Rightarrow> rng \<Rightarrow> ('t list \<times> nat set \<times> rng) option"
where
  "pick_songs songs randomCount sel songIndexes rs =
     (if card songIndexes < randomCount then
        (let randomIndex = random_index (shd rs) (length songs) in
         if randomIndex \<notin> songIndexes
         then pick_songs songs randomCount (sel @ [songs ! randomIndex])
                (insert randomIndex songIndexes) (stl rs)
         else pick_songs songs randomCount sel songIndexes (stl rs))
      else Some (sel, songIndexes, rs))"

text \<open>The indices the first \<open>m\<close> draws of a stream produce, and the abstract
  contract of the selection: \<open>k\<close> songs at pairwise distinct positions of the list.\<close>

definition drawn_indices :: "nat \<Rightarrow> nat \<Rightarrow> rng \<Rightarrow> nat set" where
  "drawn_indices n m rs = (\<lambda>r. random_index r n) ` set (stake m rs)"

definition select_spec :: "'t list \<Rightarrow> nat \<Rightarrow> 't list \<Rightarrow> bool" where
  "select_spec songs k sel \<longleftrightarrow>
     (\<exists>is. distinct is \<and> length is = k \<and> set is \<subseteq> {..<length songs} \<and> sel = map ((!) songs) is)"

text \<open>Lines 180--190 as one block: the count draw, then the loop from empty
  \<^verbatim>\<open>randomSelectedSongs\<close> and \<^verbatim>\<open>songIndexes\<close>.\<close>

definition select_random_songs :: "'t list \<Rightarrow> rng \<Rightarrow> ('t list \<times> rng) option" where
  "select_random_songs songs rs =
     (let randomCount = random_count (shd rs)
      in case pick_songs songs randomCount [] {} (stl rs) of
           None \<Rightarrow> None
         | Some (randomSelectedSongs, songIndexes, rs') \<Rightarrow> Some (randomSelectedSongs, rs'))"

lemma drawn_indices_0 [simp]: "drawn_indices n 0 rs = {}"
  by (simp add: drawn_indices_def)

lemma drawn_indices_Suc:
  "drawn_indices n (Suc m) rs = insert (random_index (shd rs) n) (drawn_indices n m (stl rs))"
  by (simp add: drawn_indices_def)

lemma drawn_indices_bound:
  assumes "rng_wf rs" "0 < n"
  shows "drawn_indices n m rs \<subseteq> {..<n}"
proof
  fix i assume "i \<in> drawn_indices n m rs"
  then obtain r where r: "r \<in> set (stake m rs)" and i: "i = random_index r n"
    by (auto simp: drawn_indices_def)
  from r have "r \<in> sset rs"
    using sset_shift [of "stake m rs" "sdrop m rs"] by (simp add: stake_sdrop)
  with assms(1) have "0 \<le> r" "r < 1" by (auto simp: rng_wf_def)
  with i assms(2) show "i \<in> {..<n}" by (simp add: random_index_less)
qed

lemma pick_songs_sound:
  assumes "pick_songs songs k sel S rs = Some r"
  shows "\<forall>is. 0 < length songs \<longrightarrow> rng_wf rs \<longrightarrow> sel = map ((!) songs) is \<longrightarrow> distinct is
     \<longrightarrow> set is = S \<longrightarrow> S \<subseteq> {..<length songs} \<longrightarrow> card S \<le> k \<longrightarrow>
     (\<exists>ext. fst r = map ((!) songs) (is @ ext) \<and> distinct (is @ ext) \<and>
        set (is @ ext) = fst (snd r) \<and> fst (snd r) \<subseteq> {..<length songs} \<and> length (is @ ext) = k)"
proof (rule pick_songs.raw_induct [OF _ assms])
  fix f :: "'t list \<Rightarrow> nat \<Rightarrow> 't list \<Rightarrow> nat set \<Rightarrow> rng \<Rightarrow> ('t list \<times> nat set \<times> rng) option"
    and songs k sel S rs r
  assume IH: "\<And>k sel S rs b y. f k sel S rs b = Some y \<Longrightarrow> \<forall>is. 0 < length k \<longrightarrow> rng_wf b \<longrightarrow>
     S = map ((!) k) is \<longrightarrow> distinct is \<longrightarrow> set is = rs \<longrightarrow> rs \<subseteq> {..<length k} \<longrightarrow> card rs \<le> sel \<longrightarrow>
     (\<exists>ext. fst y = map ((!) k) (is @ ext) \<and> distinct (is @ ext) \<and>
        set (is @ ext) = fst (snd y) \<and> fst (snd y) \<subseteq> {..<length k} \<and> length (is @ ext) = sel)"
    and eq: "(if card S < k then
        let randomIndex = random_index (shd rs) (length songs)
        in if randomIndex \<notin> S
           then f songs k (sel @ [songs ! randomIndex]) (insert randomIndex S) (stl rs)
           else f songs k sel S (stl rs)
        else Some (sel, S, rs)) = Some r"
  show "\<forall>is. 0 < length songs \<longrightarrow> rng_wf rs \<longrightarrow> sel = map ((!) songs) is \<longrightarrow> distinct is
     \<longrightarrow> set is = S \<longrightarrow> S \<subseteq> {..<length songs} \<longrightarrow> card S \<le> k \<longrightarrow>
     (\<exists>ext. fst r = map ((!) songs) (is @ ext) \<and> distinct (is @ ext) \<and>
        set (is @ ext) = fst (snd r) \<and> fst (snd r) \<subseteq> {..<length songs} \<and> length (is @ ext) = k)"
  proof (intro allI impI)
    fix "is" :: "nat list"
    assume n: "0 < length songs" and wf: "rng_wf rs" and sel: "sel = map ((!) songs) is"
      and d: "distinct is" and S: "set is = S" and bound: "S \<subseteq> {..<length songs}"
      and le: "card S \<le> k"
    let ?i = "random_index (shd rs) (length songs)"
    have card_is: "card S = length is" using S d distinct_card by blast
    show "\<exists>ext. fst r = map ((!) songs) (is @ ext) \<and> distinct (is @ ext) \<and>
        set (is @ ext) = fst (snd r) \<and> fst (snd r) \<subseteq> {..<length songs} \<and> length (is @ ext) = k"
    proof (cases "card S < k")
      case False
      with eq le have "r = (sel, S, rs)" and "card S = k" by simp_all
      with sel d S bound card_is show ?thesis by (intro exI [of _ "[]"]) simp
    next
      case True
      have i_lt: "?i < length songs"
        using wf n by (simp add: random_index_less rng_wf_shd)
      have wf': "rng_wf (stl rs)" using wf by (rule rng_wf_stl)
      show ?thesis
      proof (cases "?i \<in> S")
        case False
        with True eq have call: "f songs k (sel @ [songs ! ?i]) (insert ?i S) (stl rs) = Some r"
          by (simp add: Let_def)
        have "card (insert ?i S) \<le> k"
          using True False finite_subset [OF bound] by simp
        with IH [OF call] n wf' sel d S bound False i_lt obtain ext where
          "fst r = map ((!) songs) ((is @ [?i]) @ ext) \<and> distinct ((is @ [?i]) @ ext) \<and>
           set ((is @ [?i]) @ ext) = fst (snd r) \<and> fst (snd r) \<subseteq> {..<length songs} \<and>
           length ((is @ [?i]) @ ext) = k"
          by (elim allE [of _ "is @ [?i]"]) auto
        then show ?thesis by (intro exI [of _ "?i # ext"]) simp
      next
        case True': True
        with True eq have call: "f songs k sel S (stl rs) = Some r"
          by (simp add: Let_def)
        from IH [OF call] n wf' sel d S bound le show ?thesis by blast
      qed
    qed
  qed
qed

lemma pick_songs_suffix:
  assumes "pick_songs songs k sel S rs = Some r"
  shows "\<exists>m. snd (snd r) = sdrop m rs"
proof (rule pick_songs.raw_induct [OF _ assms])
  fix f :: "'t list \<Rightarrow> nat \<Rightarrow> 't list \<Rightarrow> nat set \<Rightarrow> rng \<Rightarrow> ('t list \<times> nat set \<times> rng) option"
    and songs k sel S rs r
  assume IH: "\<And>k sel S rs b y. f k sel S rs b = Some y \<Longrightarrow> \<exists>m. snd (snd y) = sdrop m b"
    and eq: "(if card S < k then
        let randomIndex = random_index (shd rs) (length songs)
        in if randomIndex \<notin> S
           then f songs k (sel @ [songs ! randomIndex]) (insert randomIndex S) (stl rs)
           else f songs k sel S (stl rs)
        else Some (sel, S, rs)) = Some r"
  show "\<exists>m. snd (snd r) = sdrop m rs"
  proof (cases "card S < k")
    case False
    with eq show ?thesis by (intro exI [of _ 0]) auto
  next
    case True
    with eq obtain sel' S' where "f songs k sel' S' (stl rs) = Some r"
      by (auto simp: Let_def split: if_splits)
    then obtain m where "snd (snd r) = sdrop m (stl rs)" using IH by blast
    then show ?thesis by (intro exI [of _ "Suc m"]) simp
  qed
qed

lemma pick_songs_returns_if_drawn:
  "finite S \<Longrightarrow> k \<le> card (S \<union> drawn_indices (length songs) m rs) \<Longrightarrow>
   \<exists>r. pick_songs songs k sel S rs = Some r"
proof (induction m arbitrary: sel S rs)
  case 0
  then show ?case by (subst pick_songs.simps) simp
next
  case (Suc m)
  let ?i = "random_index (shd rs) (length songs)"
  have eq: "S \<union> drawn_indices (length songs) (Suc m) rs
      = insert ?i S \<union> drawn_indices (length songs) m (stl rs)"
    by (auto simp: drawn_indices_Suc)
  show ?case
  proof (cases "card S < k")
    case False
    then show ?thesis by (subst pick_songs.simps) simp
  next
    case True
    have "\<exists>r. pick_songs songs k (sel @ [songs ! ?i]) (insert ?i S) (stl rs) = Some r"
      using Suc eq by (intro Suc.IH) simp_all
    moreover have "?i \<in> S \<Longrightarrow> \<exists>r. pick_songs songs k sel S (stl rs) = Some r"
      using Suc eq by (intro Suc.IH) (simp_all add: insert_absorb)
    ultimately show ?thesis using True
      by (subst pick_songs.simps) (auto simp: Let_def)
  qed
qed

lemma pick_songs_returns_only_if_drawn:
  assumes "pick_songs songs k sel S rs = Some r"
  shows "finite S \<longrightarrow> (\<exists>m. k \<le> card (S \<union> drawn_indices (length songs) m rs))"
proof (rule pick_songs.raw_induct [OF _ assms])
  fix f :: "'t list \<Rightarrow> nat \<Rightarrow> 't list \<Rightarrow> nat set \<Rightarrow> rng \<Rightarrow> ('t list \<times> nat set \<times> rng) option"
    and songs k sel S rs r
  assume IH: "\<And>k sel S rs b y. f k sel S rs b = Some y \<Longrightarrow>
      finite rs \<longrightarrow> (\<exists>m. sel \<le> card (rs \<union> drawn_indices (length k) m b))"
    and eq: "(if card S < k then
        let randomIndex = random_index (shd rs) (length songs)
        in if randomIndex \<notin> S
           then f songs k (sel @ [songs ! randomIndex]) (insert randomIndex S) (stl rs)
           else f songs k sel S (stl rs)
        else Some (sel, S, rs)) = Some r"
  let ?i = "random_index (shd rs) (length songs)"
  show "finite S \<longrightarrow> (\<exists>m. k \<le> card (S \<union> drawn_indices (length songs) m rs))"
  proof
    assume fin: "finite S"
    show "\<exists>m. k \<le> card (S \<union> drawn_indices (length songs) m rs)"
    proof (cases "card S < k")
      case False
      then show ?thesis by (intro exI [of _ 0]) simp
    next
      case True
      with eq obtain sel' where "f songs k sel' (insert ?i S) (stl rs) = Some r"
        by (cases "?i \<in> S") (auto simp: Let_def insert_absorb)
      with IH fin obtain m where "k \<le> card (insert ?i S \<union> drawn_indices (length songs) m (stl rs))"
        by blast
      then show ?thesis
        by (intro exI [of _ "Suc m"]) (simp add: drawn_indices_Suc)
    qed
  qed
qed

lemma pick_songs_diverges:
  assumes "rng_wf rs" "0 < length songs" "S \<subseteq> {..<length songs}" "length songs < k"
  shows "pick_songs songs k sel S rs = None"
proof (rule ccontr)
  assume "pick_songs songs k sel S rs \<noteq> None"
  then obtain r where "pick_songs songs k sel S rs = Some r" by blast
  moreover have fin: "finite S" using assms(3) finite_subset by blast
  ultimately obtain m where m: "k \<le> card (S \<union> drawn_indices (length songs) m rs)"
    using pick_songs_returns_only_if_drawn by blast
  have "S \<union> drawn_indices (length songs) m rs \<subseteq> {..<length songs}"
    using assms(3) drawn_indices_bound [OF assms(1,2)] by blast
  then have "card (S \<union> drawn_indices (length songs) m rs) \<le> length songs"
    using card_mono [of "{..<length songs}"] by fastforce
  with m assms(4) show False by simp
qed

lemma pick_songs_frac:
  assumes "distinct (is0 @ is)" "set (is0 @ is) \<subseteq> {..<length songs}" "length (is0 @ is) = k"
  shows "pick_songs songs k (map ((!) songs) is0) (set is0)
           (map (\<lambda>i. real i / real (length songs)) is @- rs)
         = Some (map ((!) songs) (is0 @ is), set (is0 @ is), rs)"
  using assms
proof (induction "is" arbitrary: is0)
  case Nil
  then show ?case by (subst pick_songs.simps) (simp add: distinct_card)
next
  case (Cons i "is")
  have "card (set is0) < k" using Cons.prems by (simp add: distinct_card)
  moreover have "random_index (real i / real (length songs)) (length songs) = i"
    using Cons.prems by (simp add: random_index_frac)
  moreover have "i \<notin> set is0" using Cons.prems by simp
  moreover have "pick_songs songs k (map ((!) songs) (is0 @ [i])) (set (is0 @ [i]))
           (map (\<lambda>i. real i / real (length songs)) is @- rs)
         = Some (map ((!) songs) ((is0 @ [i]) @ is), set ((is0 @ [i]) @ is), rs)"
    using Cons.prems by (intro Cons.IH) simp_all
  ultimately show ?case by (subst pick_songs.simps) simp
qed

lemma bounded_witnesses:
  "\<forall>i<(n::nat). \<exists>m. P i m \<Longrightarrow> \<exists>M::nat. \<forall>i<n. \<exists>m<M. P i m"
proof (induction n)
  case 0
  then show ?case by simp
next
  case (Suc n)
  then obtain M where M: "\<forall>i<n. \<exists>m<M. P i m" by auto
  from Suc.prems obtain m0 where "P n m0" by auto
  with M have "\<forall>i<Suc n. \<exists>m<max M (Suc m0). P i m"
    by (auto simp: less_Suc_eq less_max_iff_disj)
  then show ?case by blast
qed

lemma drawn_indices_covers:
  assumes "\<forall>i<n. \<exists>m. random_index (rs !! m) n = i"
  shows "\<exists>M. {..<n} \<subseteq> drawn_indices n M rs"
proof -
  from bounded_witnesses [OF assms] obtain M where
    M: "\<forall>i<n. \<exists>m<M. random_index (rs !! m) n = i" by blast
  have "{..<n} \<subseteq> drawn_indices n M rs"
  proof
    fix i assume "i \<in> {..<n}"
    with M obtain m where "m < M" "random_index (rs !! m) n = i" by auto
    then have "rs !! m \<in> set (stake M rs)" "i = random_index (rs !! m) n"
      using stake_nth [of m M rs] nth_mem [of m "stake M rs"] by auto
    then show "i \<in> drawn_indices n M rs" by (auto simp: drawn_indices_def)
  qed
  then show ?thesis by blast
qed

lemma random_count_bounds: "0 \<le> r \<Longrightarrow> r < 1 \<Longrightarrow> 3 \<le> random_count r \<and> random_count r \<le> 5"
  using random_index_less [of r 3] by (simp add: random_count_def)

lemma select_random_songs_Some:
  "select_random_songs songs rs = Some (sel, rs') \<longleftrightarrow>
   (\<exists>S. pick_songs songs (random_count (shd rs)) [] {} (stl rs) = Some (sel, S, rs'))"
  by (auto simp: select_random_songs_def split: option.splits)

lemma select_random_songs_sound:
  assumes "select_random_songs songs rs = Some (sel, rs')" "rng_wf rs" "0 < length songs"
  shows "select_spec songs (random_count (shd rs)) sel \<and> rng_wf rs'"
proof -
  from assms(1) obtain S where
    pick: "pick_songs songs (random_count (shd rs)) [] {} (stl rs) = Some (sel, S, rs')"
    by (auto simp: select_random_songs_Some)
  have wf: "rng_wf (stl rs)" using assms(2) by (rule rng_wf_stl)
  from pick_songs_sound [OF pick] wf assms(3) obtain ext where
    "sel = map ((!) songs) ext" "distinct ext" "set ext = S" "S \<subseteq> {..<length songs}"
    "length ext = random_count (shd rs)"
    by (elim allE [of _ "[]"]) auto
  then have "select_spec songs (random_count (shd rs)) sel"
    by (auto simp: select_spec_def)
  moreover obtain m where "rs' = sdrop m (stl rs)"
    using pick_songs_suffix [OF pick] by auto
  ultimately show ?thesis using wf by (simp add: rng_wf_sdrop)
qed

lemma select_spec_length: "select_spec songs k sel \<Longrightarrow> length sel = k"
  by (auto simp: select_spec_def)

subsection \<open>Properties of the selection\<close>

text \<open>C3: a selection that returns is a choice of \<^verbatim>\<open>randomCount\<close> songs at
  pairwise distinct positions of the response (the contract \<open>select_spec\<close>), so
  it holds three to five songs, and it leaves a well-formed generator.\<close>

theorem select_random_songs_refines:
  assumes "0 < length songs" "rng_wf rs" "select_random_songs songs rs = Some (sel, rs')"
  shows "select_spec songs (random_count (shd rs)) sel \<and> 3 \<le> length sel \<and> length sel \<le> 5
    \<and> rng_wf rs'"
proof -
  from select_random_songs_sound [OF assms(3,2,1)]
  have spec: "select_spec songs (random_count (shd rs)) sel" and "rng_wf rs'" by simp_all
  moreover have "3 \<le> random_count (shd rs) \<and> random_count (shd rs) \<le> 5"
    using assms(2) by (simp add: random_count_bounds rng_wf_shd)
  ultimately show ?thesis by (simp add: select_spec_length)
qed

theorem select_random_songs_refines_witness:
  "0 < length [1..<11 :: nat] \<and> rng_wf ([0, 0, 1/10, 2/10] @- sconst 0)
   \<and> select_random_songs [1..<11 :: nat] ([0, 0, 1/10, 2/10] @- sconst 0) = Some ([1, 2, 3], sconst 0)
   \<and> select_spec [1..<11 :: nat] 3 [1, 2, 3]"
proof -
  have wf: "rng_wf ([0, 0, 1/10, 2/10] @- sconst (0::real))" by (simp add: rng_simps)
  have run: "select_random_songs [1..<11 :: nat] ([0, 0, 1/10, 2/10] @- sconst 0) = Some ([1, 2, 3], sconst 0)"
    by (simp add: select_random_songs_def random_count_def pick_songs.simps random_index_def
        upt_rec insert_commute)
  have "select_spec [1..<11 :: nat] (random_count 0) [1, 2, 3]"
    using select_random_songs_refines [OF _ wf run] by simp
  with wf run show ?thesis by (simp add: random_count_def random_index_def)
qed

text \<open>C4: over well-formed generators the loop, started from nothing chosen, produces
  exactly the outcomes of the contract: every choice of \<open>k\<close> distinct positions,
  and nothing else.\<close>

theorem pick_songs_outcomes:
  assumes "0 < length songs"
  shows "(\<exists>rs S rs'. rng_wf rs \<and> pick_songs songs k [] {} rs = Some (sel, S, rs'))
         \<longleftrightarrow> select_spec songs k sel"
proof
  assume "\<exists>rs S rs'. rng_wf rs \<and> pick_songs songs k [] {} rs = Some (sel, S, rs')"
  then obtain rs S rs' where wf: "rng_wf rs" and pick: "pick_songs songs k [] {} rs = Some (sel, S, rs')"
    by blast
  from pick_songs_sound [OF pick] wf assms obtain ext where
    "sel = map ((!) songs) ext" "distinct ext" "set ext = S" "S \<subseteq> {..<length songs}"
    "length ext = k"
    by (elim allE [of _ "[]"]) auto
  then show "select_spec songs k sel" by (auto simp: select_spec_def)
next
  assume "select_spec songs k sel"
  then obtain "is" where d: "distinct is" and len: "length is = k"
    and bound: "set is \<subseteq> {..<length songs}" and sel: "sel = map ((!) songs) is"
    by (auto simp: select_spec_def)
  let ?rs = "map (\<lambda>i. real i / real (length songs)) is @- sconst 0"
  have "set (map (\<lambda>i. real i / real (length songs)) is) \<subseteq> {0..<1}"
  proof
    fix x assume "x \<in> set (map (\<lambda>i. real i / real (length songs)) is)"
    then obtain i where "i \<in> set is" and x: "x = real i / real (length songs)" by auto
    with bound have lt: "i < length songs" by auto
    then have "0 < real (length songs)" and "real i < real (length songs)" by auto
    with x show "x \<in> {0..<1}" by simp
  qed
  then have "rng_wf ?rs" by (simp add: rng_simps)
  moreover have "pick_songs songs k (map ((!) songs) []) (set []) ?rs
      = Some (map ((!) songs) ([] @ is), set ([] @ is), sconst 0)"
    using d len bound by (intro pick_songs_frac) simp_all
  ultimately show "\<exists>rs S rs'. rng_wf rs \<and> pick_songs songs k [] {} rs = Some (sel, S, rs')"
    using sel by auto
qed

theorem pick_songs_outcomes_witness:
  "0 < length [10, 20, 30 :: nat] \<and> select_spec [10, 20, 30 :: nat] 2 [30, 10] \<and>
   (\<exists>rs S rs'. rng_wf rs \<and> pick_songs [10, 20, 30 :: nat] 2 [] {} rs = Some ([30, 10], S, rs'))"
proof -
  have spec: "select_spec [10, 20, 30 :: nat] 2 [30, 10]"
    unfolding select_spec_def by (intro exI [of _ "[2, 0]"]) simp
  with pick_songs_outcomes [of "[10, 20, 30 :: nat]" 2 "[30, 10]"] show ?thesis by simp
qed

text \<open>C5: the loop exits exactly when some finite prefix of the draws, together with
  the indices already chosen, holds \<open>k\<close> distinct indices; otherwise it runs
  forever.\<close>

theorem pick_songs_terminates_iff:
  assumes "finite S"
  shows "pick_songs songs k sel S rs \<noteq> None \<longleftrightarrow>
         (\<exists>m. k \<le> card (S \<union> drawn_indices (length songs) m rs))"
proof
  assume "pick_songs songs k sel S rs \<noteq> None"
  then obtain r where "pick_songs songs k sel S rs = Some r" by blast
  with assms show "\<exists>m. k \<le> card (S \<union> drawn_indices (length songs) m rs)"
    using pick_songs_returns_only_if_drawn by blast
next
  assume "\<exists>m. k \<le> card (S \<union> drawn_indices (length songs) m rs)"
  then obtain m where "k \<le> card (S \<union> drawn_indices (length songs) m rs)" by blast
  with assms obtain r where "pick_songs songs k sel S rs = Some r"
    using pick_songs_returns_if_drawn by blast
  then show "pick_songs songs k sel S rs \<noteq> None" by simp
qed

theorem pick_songs_terminates_iff_witness:
  "finite ({} :: nat set) \<and> pick_songs [10, 20, 30 :: nat] 2 [] {} ([0, 0, 1/2] @- sconst 0) \<noteq> None
   \<and> (\<exists>m. 2 \<le> card ({} \<union> drawn_indices (length [10, 20, 30 :: nat]) m ([0, 0, 1/2] @- sconst 0)))"
proof -
  have p: "pick_songs [10, 20, 30 :: nat] 2 [] {} ([0, 0, 1/2] @- sconst 0) \<noteq> None"
    by (simp add: pick_songs.simps random_index_def)
  have f: "finite ({} :: nat set)" by simp
  from pick_songs_terminates_iff [OF f, of "[10, 20, 30 :: nat]" 2 "[]" "[0, 0, 1/2] @- sconst 0"] p f
  show ?thesis by blast
qed

text \<open>C7: when the response has fewer songs than the drawn \<^verbatim>\<open>randomCount\<close>,
  the selection never returns, for every well-formed generator: the loop cannot find
  \<^verbatim>\<open>randomCount\<close> distinct indices below \<^verbatim>\<open>songs.length\<close>.\<close>

theorem select_random_songs_hangs:
  assumes "rng_wf rs" "0 < length songs" "length songs < random_count (shd rs)"
  shows "select_random_songs songs rs = None"
  using pick_songs_diverges [OF rng_wf_stl [OF assms(1)] assms(2) _ assms(3)]
  by (simp add: select_random_songs_def)

theorem select_random_songs_hangs_witness:
  "rng_wf ((9/10) ## sconst 0) \<and> 0 < length [1, 2, 3, 4 :: nat]
   \<and> length [1, 2, 3, 4 :: nat] < random_count (shd ((9/10) ## sconst 0))
   \<and> select_random_songs [1, 2, 3, 4 :: nat] ((9/10) ## sconst 0) = None"
proof -
  have wf: "rng_wf ((9/10) ## sconst (0::real))" by (simp add: rng_simps)
  have cnt: "length [1, 2, 3, 4 :: nat] < random_count (shd ((9/10) ## sconst 0))"
    by (simp add: random_count_def random_index_def)
  from select_random_songs_hangs [OF wf _ cnt] wf cnt show ?thesis by simp
qed

text \<open>C17: the loop keeps positions distinct, not songs: when the response lists the
  same track twice, the selection can show it twice.\<close>

theorem select_random_songs_duplicate_tracks:
  "select_random_songs [''x'', ''x'', ''y''] ([0, 0, 2/5, 9/10] @- sconst 0)
     = Some ([''x'', ''x'', ''y''], sconst 0)
   \<and> \<not> distinct [''x'', ''x'', ''y'']"
  by (simp add: select_random_songs_def random_count_def pick_songs.simps random_index_def
      insert_commute)

text \<open>C18: \<^verbatim>\<open>randomCount\<close> is three, four or five for every draw of
  \<^verbatim>\<open>Math.random()\<close>.\<close>

theorem random_count_range:
  "0 \<le> r \<Longrightarrow> r < 1 \<Longrightarrow> random_count r \<in> {3, 4, 5}"
  using random_count_bounds [of r] by auto

theorem random_count_range_witness:
  "0 \<le> (1/2 :: real) \<and> (1/2 :: real) < 1 \<and> random_count (1/2) \<in> {3, 4, 5}"
  using random_count_range [of "1/2"] by simp

text \<open>C29: liveness of the loop.  When every index below \<^verbatim>\<open>songs.length\<close> is
  eventually drawn and \<open>k\<close> songs are available, the loop returns.\<close>

theorem pick_songs_returns_when_covered:
  assumes "finite S" "k \<le> length songs"
    and "\<forall>i<length songs. \<exists>m. random_index (rs !! m) (length songs) = i"
  shows "\<exists>r. pick_songs songs k sel S rs = Some r"
proof -
  obtain M where cov: "{..<length songs} \<subseteq> drawn_indices (length songs) M rs"
    using drawn_indices_covers [OF assms(3)] by blast
  have fin: "finite (drawn_indices (length songs) M rs)" by (simp add: drawn_indices_def)
  have "length songs \<le> card (S \<union> drawn_indices (length songs) M rs)"
    using card_mono [OF _ cov] fin assms(1) card_mono [of "S \<union> drawn_indices (length songs) M rs"]
    by (metis card_lessThan finite_UnI le_trans sup.cobounded2)
  with assms(2) have "k \<le> card (S \<union> drawn_indices (length songs) M rs)" by simp
  with assms(1) show ?thesis by (rule pick_songs_returns_if_drawn)
qed

theorem pick_songs_returns_when_covered_witness:
  "random_index (([0, 1/3, 2/3] @- sconst 0) !! 0) 3 = 0 \<and>
   random_index (([0, 1/3, 2/3] @- sconst 0) !! 1) 3 = 1 \<and>
   random_index (([0, 1/3, 2/3] @- sconst 0) !! 2) 3 = 2 \<and>
   (\<exists>r. pick_songs [10, 20, 30 :: nat] 3 [] {} ([0, 1/3, 2/3] @- sconst 0) = Some r)"
proof -
  have each: "random_index (([0, 1/3, 2/3] @- sconst 0) !! i) (length [10, 20, 30 :: nat]) = i"
    if "i < length [10, 20, 30 :: nat]" for i
  proof -
    from that have "i = 0 \<or> i = 1 \<or> i = 2" by auto
    then show ?thesis by (auto simp: random_index_def numeral_2_eq_2)
  qed
  then have cov: "\<forall>i<length [10, 20, 30 :: nat].
      \<exists>m. random_index (([0, 1/3, 2/3] @- sconst 0) !! m) (length [10, 20, 30 :: nat]) = i"
    by blast
  have f: "finite ({} :: nat set)" by simp
  have p: "\<exists>r. pick_songs [10, 20, 30 :: nat] 3 [] {} ([0, 1/3, 2/3] @- sconst 0) = Some r"
    using pick_songs_returns_when_covered [OF f _ cov, of 3 "[]"] by simp
  have "random_index (([0, 1/3, 2/3] @- sconst 0) !! 0) 3 = 0"
    "random_index (([0, 1/3, 2/3] @- sconst 0) !! 1) 3 = 1"
    "random_index (([0, 1/3, 2/3] @- sconst 0) !! 2) 3 = 2"
    by (simp_all add: random_index_def numeral_2_eq_2)
  with p show ?thesis by blast
qed

end
