(* ===== verification/Session.thy ===== *)
theory Session
  imports MoodMapper Selector
begin

text \<open>
  The component \<^verbatim>\<open>MainComponent\<close> of \<^verbatim>\<open>src/src/components/MainComponen.js\<close> as a
  state machine.  Its eight \<^verbatim>\<open>useState\<close> hooks (lines 59--66) are the first fields of
  \<open>app_state\<close>; the browser effects it performs are the remaining fields: the page
  background, the spoken announcements, the alerts, the \<^verbatim>\<open>console.error\<close> calls,
  the HTTP requests issued, the geolocation and model-loading calls, and the
  generator behind \<^verbatim>\<open>Math.random\<close>.  An event is a user action or a callback of an
  asynchronous call; \<open>handle\<close> runs its handler, and \<open>after_render\<close> runs the
  effects whose dependencies changed, in the order of their declaration, as React does
  after the re-render.  A handler that never returns (the selection loop) gives
  \<open>None\<close>.  \<open>reach\<close> collects the states reachable from a mount with a
  well-formed generator; four invariants hold on them: \<open>session_inv\<close> (spinner and
  songs exclude each other, three to five songs), \<open>presentation_ok\<close> (gradient and
  quote of the mood shown), \<open>requests_ok\<close> (the shape of every search sent) and
  \<open>lookups_ok\<close> (one position request, one weather request carrying the position,
  at most two starts of the model loading).
  The theorems at the end give the behaviour of each handler on each of its branches.
\<close>

text \<open>The \<^verbatim>\<open>options\<close> object of lines 159--172 handed to \<^verbatim>\<open>axios.request\<close>:
  method, URL, the query parameters and the two headers, in the order written.\<close>

record search_request =
  req_method :: string
  req_url :: string
  req_term :: string
  req_locale :: string
  req_offset :: string
  req_limit :: string
  req_headers :: "(string \<times> string) list"

definition search_options :: "string \<Rightarrow> string \<Rightarrow> search_request" where
  "search_options mood weather_text =
     \<lparr>req_method = ''GET'', req_url = ''https://shazam.p.rapidapi.com/search'',
      req_term = mood @ '' '' @ weather_text, req_locale = ''en-US'',
      req_offset = ''0'', req_limit = ''20'',
      req_headers = [(''x-rapidapi-host'', ''shazam.p.rapidapi.com''),
                     (''x-rapidapi-key'', ''44b764df58msh170e4bc525f49e3p1e5000jsn922e3d663dd4'')]\<rparr>"

record 't app_state =
  loader :: bool
  randomSongs :: "'t list"
  webcamModal :: bool
  emotion :: "string option"
  weather :: "string option"
  location :: "string option"
  modelsLoaded :: bool
  currentQuote :: "string option"
  background :: string
  spoken :: "utterance list"
  alerts :: "string list"
  console_errors :: nat
  search_requests :: "search_request list"
  weather_requests :: "string list"
  geo_requests :: nat
  model_loads :: nat
  rng :: rng

definition initial_state :: "rng \<Rightarrow> 't app_state" where
  "initial_state rs =
     \<lparr>loader = False, randomSongs = [], webcamModal = False, emotion = None, weather = None,
      location = None, modelsLoaded = False, currentQuote = Some '''', background = '''',
      spoken = [], alerts = [], console_errors = 0, search_requests = [],
      weather_requests = [], geo_requests = 0, model_loads = 0, rng = rs\<rparr>"

subsection \<open>Handlers and effects\<close>

definition recommendSongs :: "string \<Rightarrow> 't app_state \<Rightarrow> 't app_state" where
  "recommendSongs mood st =
     (let st1 = st\<lparr>emotion := Some mood, loader := True, randomSongs := []\<rparr>
      in case weather st of
           Some w \<Rightarrow>
             if w \<noteq> [] then st1\<lparr>search_requests := search_requests st @ [search_options mood w]\<rparr>
             else st1\<lparr>alerts := alerts st @ [''Detecting weather...'']\<rparr>
         | None \<Rightarrow> st1\<lparr>alerts := alerts st @ [''Detecting weather...'']\<rparr>)"

definition emotion_effect :: "'t app_state \<Rightarrow> 't app_state" where
  "emotion_effect st =
     (case emotion st of
        Some e \<Rightarrow>
          if e \<noteq> [] then
            (let (quote, rs) = getRandomQuote e (rng st)
             in st\<lparr>background := getBackgroundColor e,
                   spoken := spoken st @ [announceEmotion e],
                   currentQuote := quote, rng := rs\<rparr>)
          else st
      | None \<Rightarrow> st)"

text \<open>The weather request of lines 136--139: the template literal with \<^verbatim>\<open>location\<close>
  substituted for \<^verbatim>\<open>${location}\<close>.\<close>

definition weather_url :: "string \<Rightarrow> string" where
  "weather_url loc =
     ''https://api.weatherapi.com/v1/current.json?key=779f7722bee9427d83a144540240510&q=''
     @ loc @ ''&aqi=no''"

definition location_effect :: "'t app_state \<Rightarrow> 't app_state" where
  "location_effect st =
     (let st1 = (if \<not> modelsLoaded st then st\<lparr>model_loads := Suc (model_loads st)\<rparr> else st);
          st2 = (if \<not> js_truthy (location st) then st1\<lparr>geo_requests := Suc (geo_requests st1)\<rparr>
                 else st1)
      in case location st of
           Some loc \<Rightarrow>
             if loc \<noteq> [] then st2\<lparr>weather_requests := weather_requests st2 @ [weather_url loc]\<rparr> else st2
         | None \<Rightarrow> st2)"

definition songs_effect :: "'t app_state \<Rightarrow> 't app_state" where
  "songs_effect st =
     (case emotion st of
        Some e \<Rightarrow> if e \<noteq> [] then recommendSongs e st else st
      | None \<Rightarrow> st)"

definition after_render :: "'t app_state \<Rightarrow> 't app_state \<Rightarrow> 't app_state" where
  "after_render prev st =
     (let emotion_changed = (emotion prev \<noteq> emotion st);
          st1 = (if emotion_changed then emotion_effect st else st);
          st2 = (if location prev \<noteq> location st then location_effect st1 else st1)
      in if emotion_changed then songs_effect st2 else st2)"

definition mount :: "rng \<Rightarrow> 't app_state" where
  "mount rs = songs_effect (location_effect (emotion_effect (initial_state rs)))"

definition search_failed :: "'t app_state \<Rightarrow> 't app_state" where
  "search_failed st = st\<lparr>loader := False, console_errors := Suc (console_errors st)\<rparr>"

definition handle_search_response :: "'t list option \<Rightarrow> 't app_state \<Rightarrow> 't app_state option" where
  "handle_search_response tracks st =
     (case tracks of
        None \<Rightarrow> Some (search_failed st)
      | Some songs \<Rightarrow>
          if 0 < length songs then
            (case select_random_songs songs (rng st) of
               None \<Rightarrow> None
             | Some (randomSelectedSongs, rs) \<Rightarrow>
                 Some (st\<lparr>rng := rs, loader := False, randomSongs := randomSelectedSongs\<rparr>))
          else Some (st\<lparr>loader := False, alerts := alerts st @ [''No songs found!'']\<rparr>))"

definition geolocation_callback :: "(string \<times> string) option \<Rightarrow> 't app_state \<Rightarrow> 't app_state" where
  "geolocation_callback position st =
     (case position of
        None \<Rightarrow> st
      | Some (latitude, longitude) \<Rightarrow> st\<lparr>location := Some (latitude @ '','' @ longitude)\<rparr>)"

definition weather_callback :: "string option \<Rightarrow> 't app_state \<Rightarrow> 't app_state" where
  "weather_callback condition st =
     (case condition of None \<Rightarrow> st | Some text \<Rightarrow> st\<lparr>weather := Some text\<rparr>)"

datatype 't event =
    ClickMood string
  | OpenWebcam
  | CloseWebcam
  | Detected string
  | ModelsReady
  | GeoResult "(string \<times> string) option"
  | WeatherResponse "string option"
  | SearchResponse nat "'t list option"
  | SearchError nat

fun handle :: "'t event \<Rightarrow> 't app_state \<Rightarrow> 't app_state option" where
  "handle (ClickMood mood) st = Some (recommendSongs mood st)"
| "handle OpenWebcam st = Some (st\<lparr>webcamModal := True\<rparr>)"
| "handle CloseWebcam st = Some (st\<lparr>webcamModal := False\<rparr>)"
| "handle (Detected mood) st = Some (st\<lparr>emotion := Some mood\<rparr>)"
| "handle ModelsReady st = Some (st\<lparr>modelsLoaded := True\<rparr>)"
| "handle (GeoResult position) st = Some (geolocation_callback position st)"
| "handle (WeatherResponse condition) st = Some (weather_callback condition st)"
| "handle (SearchResponse i tracks) st = handle_search_response tracks st"
| "handle (SearchError i) st = Some (search_failed st)"

definition step :: "'t event \<Rightarrow> 't app_state \<Rightarrow> 't app_state option" where
  "step e st = map_option (after_render st) (handle e st)"

text \<open>The text of a finite JavaScript number, as \<^verbatim>\<open>position.coords.latitude + ","\<close>
  renders it: digits, a point, a sign, an exponent.\<close>

definition coord_text :: "string \<Rightarrow> bool" where
  "coord_text s \<longleftrightarrow> s \<noteq> [] \<and> list_all (\<lambda>c. c \<in> set ''0123456789.-+e'') s"

text \<open>The environment: which callbacks can arrive.  A mood is one of the seven buttons;
  the dialog reports a mood only while open; a model, position, weather or search
  callback answers a call made before.  \<^verbatim>\<open>getCurrentPosition\<close> calls its callback
  once, so no position arrives once \<^verbatim>\<open>location\<close> is set, and a position is a pair of
  number texts.\<close>

definition enabled :: "'t event \<Rightarrow> 't app_state \<Rightarrow> bool" where
  "enabled e st =
     (case e of
        ClickMood mood \<Rightarrow> mood \<in> set emotion_buttons
      | Detected _ \<Rightarrow> webcamModal st
      | ModelsReady \<Rightarrow> 0 < model_loads st
      | GeoResult p \<Rightarrow> 0 < geo_requests st \<and> location st = None \<and>
          (case p of None \<Rightarrow> True | Some (lat, lon) \<Rightarrow> coord_text lat \<and> coord_text lon)
      | WeatherResponse _ \<Rightarrow> weather_requests st \<noteq> []
      | SearchResponse i _ \<Rightarrow> i < length (search_requests st)
      | SearchError i \<Rightarrow> i < length (search_requests st)
      | _ \<Rightarrow> True)"

text \<open>A scenario: a list of events run in order from a state; \<open>None\<close> when an event
  cannot occur there or its handler does not return.\<close>

fun run :: "'t event list \<Rightarrow> 't app_state \<Rightarrow> 't app_state option" where
  "run [] st = Some st"
| "run (e # es) st =
     (if enabled e st then (case step e st of None \<Rightarrow> None | Some st' \<Rightarrow> run es st') else None)"

inductive reach :: "'t app_state \<Rightarrow> bool" where
  mounted: "rng_wf rs \<Longrightarrow> reach (mount rs)"
| stepped: "reach st \<Longrightarrow> enabled e st \<Longrightarrow> step e st = Some st' \<Longrightarrow> reach st'"


subsection \<open>The rendered view\<close>

text \<open>The emoji of the seven mood buttons (lines 220--226), as Unicode code points, in
  the order of the labels \<open>emotion_buttons\<close>.\<close>

definition mood_emojis :: "nat list" where
  "mood_emojis = [128512, 128532, 128562, 128552, 128544, 129314, 128566]"

text \<open>The text React renders for \<^verbatim>\<open>{currentQuote}\<close>: nothing for
  \<^verbatim>\<open>undefined\<close>, the string itself otherwise.\<close>

definition quote_text :: "string option \<Rightarrow> string" where
  "quote_text q = (case q of None \<Rightarrow> [] | Some s \<Rightarrow> s)"

text \<open>The page: the title, one button per mood (emoji, with the label under it), the
  button opening the dialog, the dialog with its \<^verbatim>\<open>modelsLoaded\<close> prop when open, the
  mood and weather lines, and the spinner, the song grid or nothing.  Each song card and
  each button carries its React \<^verbatim>\<open>key\<close>, the index in its list.\<close>

datatype 't panel = Spinner | SongGrid "(nat \<times> 't) list" string | NoPanel

record 't view =
  view_title :: string
  view_buttons :: "(nat \<times> string \<times> nat) list"
  view_play :: string
  view_webcam :: "bool option"
  view_mood :: "string option"
  view_weather :: "string option"
  view_panel :: "'t panel"

definition render :: "'t app_state \<Rightarrow> 't view" where
  "render st =
     \<lparr>view_title = ''Mood Music'',
      view_buttons = enumerate 0 (zip emotion_buttons mood_emojis),
      view_play = ''Play my mood!'',
      view_webcam = (if webcamModal st then Some (modelsLoaded st) else None),
      view_mood = (case emotion st of
                     Some e \<Rightarrow> if e \<noteq> [] then Some (''Mood : '' @ e) else None
                   | None \<Rightarrow> None),
      view_weather = (case weather st of
                        Some w \<Rightarrow> if w \<noteq> [] then Some (''Weather : '' @ w) else None
                      | None \<Rightarrow> None),
      view_panel = (if loader st then Spinner
                    else if 0 < length (randomSongs st)
                    then SongGrid (enumerate 0 (randomSongs st)) (quote_text (currentQuote st))
                    else NoPanel)\<rparr>"

text \<open>What the page promises for the mood shown: the mood's gradient and a quote of
  the mood's pool.\<close>

definition presentation_ok :: "'t app_state \<Rightarrow> bool" where
  "presentation_ok st \<longleftrightarrow>
     (case emotion st of
        None \<Rightarrow> True
      | Some e \<Rightarrow> e = [] \<or> (background st = getBackgroundColor e \<and> quote_fits e (currentQuote st)))"

text \<open>Every search request sent is the options object of \<^verbatim>\<open>recommendSongs\<close> for a
  non-empty mood and a non-empty weather text.\<close>

definition requests_ok :: "'t app_state \<Rightarrow> bool" where
  "requests_ok st \<longleftrightarrow>
     (\<forall>r\<in>set (search_requests st). \<exists>mood w. mood \<noteq> [] \<and> w \<noteq> [] \<and> r = search_options mood w)"

subsection \<open>The session invariant\<close>

definition session_inv :: "'t app_state \<Rightarrow> bool" where
  "session_inv st \<longleftrightarrow> rng_wf (rng st) \<and> (loader st \<longrightarrow> randomSongs st = []) \<and>
     (randomSongs st \<noteq> [] \<longrightarrow> 3 \<le> length (randomSongs st) \<and> length (randomSongs st) \<le> 5)"

text \<open>The external lookups: one position request; once the position is known, it is
  two number texts joined by a comma and the one weather request carries it; the model
  loading has been started once or twice.\<close>

definition location_ok :: "string \<Rightarrow> bool" where
  "location_ok loc \<longleftrightarrow>
     (case split_at (CHR '','') loc of (lat, lon) \<Rightarrow>
        coord_text lat \<and> coord_text lon \<and> loc = lat @ '','' @ lon)"

definition lookups_ok :: "'t app_state \<Rightarrow> bool" where
  "lookups_ok st \<longleftrightarrow> geo_requests st = 1 \<and>
     (case location st of
        None \<Rightarrow> weather_requests st = [] \<and> model_loads st = 1
      | Some loc \<Rightarrow> location_ok loc \<and> weather_requests st = [weather_url loc] \<and>
          1 \<le> model_loads st \<and> model_loads st \<le> 2)"

lemma recommendSongs_fields [simp]:
  "loader (recommendSongs mood st) = True"
  "randomSongs (recommendSongs mood st) = []"
  "rng (recommendSongs mood st) = rng st"
  "emotion (recommendSongs mood st) = Some mood"
  "location (recommendSongs mood st) = location st"
  "weather (recommendSongs mood st) = weather st"
  "currentQuote (recommendSongs mood st) = currentQuote st"
  "background (recommendSongs mood st) = background st"
  "spoken (recommendSongs mood st) = spoken st"
  by (simp_all add: recommendSongs_def Let_def split: option.splits)

lemma emotion_effect_fields [simp]:
  "loader (emotion_effect st) = loader st"
  "randomSongs (emotion_effect st) = randomSongs st"
  "emotion (emotion_effect st) = emotion st"
  "location (emotion_effect st) = location st"
  "weather (emotion_effect st) = weather st"
  "search_requests (emotion_effect st) = search_requests st"
  "alerts (emotion_effect st) = alerts st"
  by (simp_all add: emotion_effect_def split: option.splits prod.splits)

lemma location_effect_fields [simp]:
  "loader (location_effect st) = loader st"
  "randomSongs (location_effect st) = randomSongs st"
  "rng (location_effect st) = rng st"
  "emotion (location_effect st) = emotion st"
  "location (location_effect st) = location st"
  "weather (location_effect st) = weather st"
  "currentQuote (location_effect st) = currentQuote st"
  "background (location_effect st) = background st"
  "search_requests (location_effect st) = search_requests st"
  "alerts (location_effect st) = alerts st"
  by (simp_all add: location_effect_def Let_def split: option.splits)

lemma rng_wf_emotion_effect: "rng_wf (rng st) \<Longrightarrow> rng_wf (rng (emotion_effect st))"
  by (simp add: emotion_effect_def Let_def split_beta rng_wf_getRandomQuote split: option.splits)

lemma session_inv_recommendSongs: "session_inv st \<Longrightarrow> session_inv (recommendSongs mood st)"
  by (simp add: session_inv_def)

lemma session_inv_emotion_effect: "session_inv st \<Longrightarrow> session_inv (emotion_effect st)"
  by (simp add: session_inv_def rng_wf_emotion_effect)

lemma session_inv_location_effect: "session_inv st \<Longrightarrow> session_inv (location_effect st)"
  by (simp add: session_inv_def)

lemma session_inv_songs_effect: "session_inv st \<Longrightarrow> session_inv (songs_effect st)"
  by (simp add: songs_effect_def session_inv_recommendSongs split: option.splits)

lemma session_inv_after_render: "session_inv st \<Longrightarrow> session_inv (after_render prev st)"
  by (simp add: after_render_def Let_def session_inv_emotion_effect session_inv_location_effect
      session_inv_songs_effect)

lemma session_inv_handle_search_response:
  assumes "session_inv st" "handle_search_response tracks st = Some st'"
  shows "session_inv st'"
proof (cases tracks)
  case None
  with assms show ?thesis by (auto simp: handle_search_response_def session_inv_def search_failed_def)
next
  case (Some songs)
  show ?thesis
  proof (cases "0 < length songs")
    case False
    with assms Some show ?thesis by (auto simp: handle_search_response_def session_inv_def)
  next
    case True
    with assms Some obtain sel rs where
      sel: "select_random_songs songs (rng st) = Some (sel, rs)" and
      st': "st' = st\<lparr>rng := rs, loader := False, randomSongs := sel\<rparr>"
      by (auto simp: handle_search_response_def split: option.splits)
    have wf: "rng_wf (rng st)" using assms(1) by (simp add: session_inv_def)
    from select_random_songs_sound [OF sel wf True]
    have "select_spec songs (random_count (shd (rng st))) sel" and "rng_wf rs" by simp_all
    moreover have "3 \<le> random_count (shd (rng st)) \<and> random_count (shd (rng st)) \<le> 5"
      using wf by (simp add: random_count_bounds rng_wf_shd)
    ultimately show ?thesis using st' by (simp add: session_inv_def select_spec_length)
  qed
qed

lemma session_inv_handle: "session_inv st \<Longrightarrow> handle e st = Some st' \<Longrightarrow> session_inv st'"
proof (induction e st rule: handle.induct)
  case (8 i tracks st)
  then show ?case by (simp add: session_inv_handle_search_response)
qed (auto simp: session_inv_def search_failed_def geolocation_callback_def weather_callback_def
      intro: session_inv_recommendSongs [unfolded session_inv_def] split: option.splits)

lemma session_inv_step: "session_inv st \<Longrightarrow> step e st = Some st' \<Longrightarrow> session_inv st'"
  by (auto simp: step_def intro: session_inv_after_render dest: session_inv_handle)

lemma session_inv_mount: "rng_wf rs \<Longrightarrow> session_inv (mount rs)"
  unfolding mount_def
  by (intro session_inv_songs_effect session_inv_location_effect session_inv_emotion_effect)
     (simp add: session_inv_def initial_state_def)

lemma reach_session_inv: "reach st \<Longrightarrow> session_inv st"
  by (induction rule: reach.induct) (auto intro: session_inv_mount session_inv_step)

subsection \<open>Frame lemmas of the render cycle\<close>

lemma after_render_unchanged:
  "emotion prev = emotion st \<Longrightarrow> location prev = location st \<Longrightarrow> after_render prev st = st"
  by (simp add: after_render_def)

lemma songs_effect_frame [simp]:
  "emotion (songs_effect st) = emotion st"
  "location (songs_effect st) = location st"
  "weather (songs_effect st) = weather st"
  "background (songs_effect st) = background st"
  "currentQuote (songs_effect st) = currentQuote st"
  by (simp_all add: songs_effect_def split: option.splits)

lemma loader_songs_effect: "loader st \<Longrightarrow> loader (songs_effect st)"
  by (simp add: songs_effect_def split: option.splits)

lemma randomSongs_songs_effect: "randomSongs st = [] \<Longrightarrow> randomSongs (songs_effect st) = []"
  by (simp add: songs_effect_def split: option.splits)

lemma loader_after_render: "loader st \<Longrightarrow> loader (after_render prev st)"
  by (simp add: after_render_def Let_def loader_songs_effect)

lemma randomSongs_after_render: "randomSongs st = [] \<Longrightarrow> randomSongs (after_render prev st) = []"
  by (simp add: after_render_def Let_def randomSongs_songs_effect)

lemma recommendSongs_no_weather:
  assumes "\<not> js_truthy (weather st)"
  shows "search_requests (recommendSongs mood st) = search_requests st \<and>
         alerts (recommendSongs mood st) = alerts st @ [''Detecting weather...'']"
  using assms by (simp add: recommendSongs_def js_truthy_def split: option.splits)

lemma recommendSongs_alerts: "set (alerts st) \<subseteq> set (alerts (recommendSongs mood st))"
  by (auto simp: recommendSongs_def Let_def split: option.splits)

lemma alerts_songs_effect: "set (alerts st) \<subseteq> set (alerts (songs_effect st))"
  using recommendSongs_alerts by (fastforce simp: songs_effect_def split: option.splits)

lemma alerts_after_render: "set (alerts st) \<subseteq> set (alerts (after_render prev st))"
  using alerts_songs_effect by (fastforce simp: after_render_def Let_def)

lemma search_requests_songs_effect_no_weather:
  "\<not> js_truthy (weather st) \<Longrightarrow> search_requests (songs_effect st) = search_requests st"
  by (simp add: songs_effect_def recommendSongs_no_weather split: option.splits)

lemma search_requests_after_render_no_weather:
  "\<not> js_truthy (weather st) \<Longrightarrow> search_requests (after_render prev st) = search_requests st"
  by (simp add: after_render_def Let_def search_requests_songs_effect_no_weather)

lemma handle_search_response_frame:
  assumes "handle_search_response tracks st = Some st'"
  shows "emotion st' = emotion st \<and> location st' = location st"
  using assms by (auto simp: handle_search_response_def search_failed_def split: option.splits if_splits)

lemma step_SearchResponse: "step (SearchResponse i tracks) st = handle_search_response tracks st"
proof (cases "handle_search_response tracks st")
  case None
  then show ?thesis by (simp add: step_def)
next
  case (Some st')
  then have "after_render st st' = st'"
    using handle_search_response_frame [OF Some] by (simp add: after_render_unchanged)
  with Some show ?thesis by (simp add: step_def)
qed

lemma step_SearchError: "step (SearchError i) st = Some (search_failed st)"
  by (simp add: step_def search_failed_def after_render_def)

lemma loader_handle_non_search:
  assumes "handle e st = Some st'" "loader st"
    and "\<forall>i tracks. e \<noteq> SearchResponse i tracks" "\<forall>i. e \<noteq> SearchError i"
  shows "loader st'"
  using assms
  by (cases e) (auto simp: geolocation_callback_def weather_callback_def split: option.splits)

lemma reach_run: "reach st \<Longrightarrow> run es st = Some st' \<Longrightarrow> reach st'"
proof (induction es arbitrary: st)
  case Nil
  then show ?case by simp
next
  case (Cons e es)
  then obtain st1 where "enabled e st" "step e st = Some st1" "run es st1 = Some st'"
    by (auto split: if_splits option.splits)
  with Cons show ?case by (blast intro: reach.stepped)
qed

lemma run_append:
  "run (es1 @ es2) st = (case run es1 st of None \<Rightarrow> None | Some st1 \<Rightarrow> run es2 st1)"
  by (induction es1 arbitrary: st) (auto split: option.splits)

text \<open>The definitions a concrete scenario unfolds to be evaluated by \<open>simp\<close>.\<close>

lemmas session_eval = step_def after_render_def emotion_effect_def location_effect_def
  songs_effect_def recommendSongs_def handle_search_response_def select_random_songs_def
  geolocation_callback_def weather_callback_def search_failed_def enabled_def mount_def
  initial_state_def getRandomQuote_def random_count_def random_index_def pick_songs.simps
  quotes_def emotion_buttons_def coord_text_def Let_def

subsection \<open>The presentation follows the mood\<close>

lemma presentation_ok_emotion_effect: "rng_wf (rng st) \<Longrightarrow> presentation_ok (emotion_effect st)"
  by (auto simp: presentation_ok_def emotion_effect_def split_beta getRandomQuote_fits
      split: option.splits)

lemma presentation_ok_location_effect: "presentation_ok st \<Longrightarrow> presentation_ok (location_effect st)"
  by (simp add: presentation_ok_def split: option.splits)

lemma presentation_ok_songs_effect: "presentation_ok st \<Longrightarrow> presentation_ok (songs_effect st)"
  by (simp add: presentation_ok_def split: option.splits)

lemma handle_presentation_frame:
  "handle e st = Some st' \<Longrightarrow> background st' = background st \<and> currentQuote st' = currentQuote st"
  by (induction e st rule: handle.induct)
     (auto simp: handle_search_response_def search_failed_def geolocation_callback_def
       weather_callback_def split: option.splits if_splits)

lemma presentation_ok_step:
  assumes "session_inv st" "presentation_ok st" "step e st = Some st'"
  shows "presentation_ok st'"
proof -
  from assms(3) obtain st1 where h: "handle e st = Some st1" and st': "st' = after_render st st1"
    by (auto simp: step_def)
  have wf: "rng_wf (rng st1)" using session_inv_handle [OF assms(1) h] by (simp add: session_inv_def)
  show ?thesis
  proof (cases "emotion st = emotion st1")
    case True
    then have "presentation_ok st1"
      using assms(2) handle_presentation_frame [OF h] by (simp add: presentation_ok_def split: option.splits)
    with True show ?thesis
      by (simp add: st' after_render_def Let_def presentation_ok_location_effect)
  next
    case False
    then show ?thesis
      using wf by (simp add: st' after_render_def Let_def presentation_ok_emotion_effect
          presentation_ok_location_effect presentation_ok_songs_effect)
  qed
qed

lemma reach_presentation_ok: "reach st \<Longrightarrow> presentation_ok st"
proof (induction rule: reach.induct)
  case (mounted rs)
  then show ?case
    by (simp add: presentation_ok_def mount_def initial_state_def emotion_effect_def)
next
  case (stepped st e st')
  then show ?case using reach_session_inv presentation_ok_step by blast
qed

subsection \<open>Search requests\<close>

lemma requests_ok_recommendSongs:
  "requests_ok st \<Longrightarrow> mood \<noteq> [] \<Longrightarrow> requests_ok (recommendSongs mood st)"
  by (auto simp: requests_ok_def recommendSongs_def Let_def split: option.splits)

lemma requests_ok_songs_effect: "requests_ok st \<Longrightarrow> requests_ok (songs_effect st)"
  by (simp add: songs_effect_def requests_ok_recommendSongs split: option.splits)

lemma requests_ok_effects [simp]:
  "requests_ok (emotion_effect st) = requests_ok st"
  "requests_ok (location_effect st) = requests_ok st"
  by (simp_all add: requests_ok_def)

lemma requests_ok_after_render: "requests_ok st \<Longrightarrow> requests_ok (after_render prev st)"
  by (simp add: after_render_def Let_def requests_ok_songs_effect)

lemma requests_ok_step:
  assumes "requests_ok st" "enabled e st" "step e st = Some st'"
  shows "requests_ok st'"
proof -
  from assms(3) obtain st1 where h: "handle e st = Some st1" and st': "st' = after_render st st1"
    by (auto simp: step_def)
  have "requests_ok st1"
  proof (cases e)
    case (ClickMood mood)
    with assms(2) have "mood \<noteq> []" by (auto simp: enabled_def emotion_buttons_def)
    with ClickMood h assms(1) show ?thesis by (auto intro: requests_ok_recommendSongs)
  qed (use h assms(1) in \<open>auto simp: requests_ok_def handle_search_response_def search_failed_def
        geolocation_callback_def weather_callback_def split: option.splits if_splits\<close>)
  then show ?thesis by (simp add: st' requests_ok_after_render)
qed

lemma reach_requests_ok: "reach st \<Longrightarrow> requests_ok st"
proof (induction rule: reach.induct)
  case (mounted rs)
  then show ?case
    by (simp add: requests_ok_def mount_def initial_state_def emotion_effect_def location_effect_def
        songs_effect_def)
next
  case (stepped st e st')
  then show ?case by (blast intro: requests_ok_step)
qed

subsection \<open>The external lookups\<close>

lemma coord_text_no_sep:
  assumes "coord_text s"
  shows "CHR '','' \<notin> set s" "CHR ''&'' \<notin> set s"
proof -
  have "\<forall>c\<in>set s. c \<in> set ''0123456789.-+e''"
    using assms by (simp add: coord_text_def list_all_iff)
  moreover have "CHR '','' \<notin> set ''0123456789.-+e''" "CHR ''&'' \<notin> set ''0123456789.-+e''"
    by simp_all
  ultimately show "CHR '','' \<notin> set s" "CHR ''&'' \<notin> set s" by blast+
qed

lemma location_ok_coords:
  "coord_text lat \<Longrightarrow> coord_text lon \<Longrightarrow> location_ok (lat @ '','' @ lon)"
  by (simp add: location_ok_def coord_text_no_sep)

lemma location_ok_nonempty: "location_ok loc \<Longrightarrow> loc \<noteq> []"
  by (auto simp: location_ok_def split: prod.splits)

lemma lookup_fields [simp]:
  "geo_requests (recommendSongs mood st) = geo_requests st"
  "weather_requests (recommendSongs mood st) = weather_requests st"
  "model_loads (recommendSongs mood st) = model_loads st"
  "geo_requests (emotion_effect st) = geo_requests st"
  "weather_requests (emotion_effect st) = weather_requests st"
  "model_loads (emotion_effect st) = model_loads st"
  by (simp_all add: recommendSongs_def emotion_effect_def Let_def split: option.splits prod.splits)

lemma lookup_fields_songs_effect [simp]:
  "geo_requests (songs_effect st) = geo_requests st"
  "weather_requests (songs_effect st) = weather_requests st"
  "model_loads (songs_effect st) = model_loads st"
  by (simp_all add: songs_effect_def split: option.splits)




text \<open>\<open>lookups_ok\<close> reads four fields only.\<close>

lemma lookups_ok_cong:
  "location st' = location st \<Longrightarrow> geo_requests st' = geo_requests st \<Longrightarrow>
   weather_requests st' = weather_requests st \<Longrightarrow> model_loads st' = model_loads st \<Longrightarrow>
   lookups_ok st' = lookups_ok st"
  unfolding lookups_ok_def by (simp only:)

lemma handle_lookup_frame:
  assumes "handle e st = Some st'" "\<forall>p. e \<noteq> GeoResult (Some p)"
  shows "location st' = location st \<and> geo_requests st' = geo_requests st \<and>
    weather_requests st' = weather_requests st \<and> model_loads st' = model_loads st"
  using assms
  by (cases e) (auto simp: geolocation_callback_def weather_callback_def handle_search_response_def
      search_failed_def split: option.splits if_splits)

lemma step_GeoResult_Some:
  "step (GeoResult (Some (lat, lon))) st =
     Some (after_render st (st\<lparr>location := Some (lat @ '','' @ lon)\<rparr>))"
  by (simp add: step_def geolocation_callback_def)

lemma after_render_position:
  "location st = None \<Longrightarrow> loc \<noteq> [] \<Longrightarrow>
   weather_requests (after_render st (st\<lparr>location := Some loc\<rparr>)) = weather_requests st @ [weather_url loc]"
  by (simp add: after_render_def location_effect_def Let_def)

lemma lookups_ok_position:
  assumes "lookups_ok st" "location st = None" "coord_text lat" "coord_text lon"
  shows "lookups_ok (after_render st (st\<lparr>location := Some (lat @ '','' @ lon)\<rparr>))"
  using assms location_ok_coords [OF assms(3,4)]
  by (simp add: lookups_ok_def after_render_def location_effect_def Let_def)

lemma lookups_ok_step:
  assumes "lookups_ok st" "enabled e st" "step e st = Some st'"
  shows "lookups_ok st'"
proof (cases "\<exists>p. e = GeoResult (Some p)")
  case True
  then obtain lat lon where e: "e = GeoResult (Some (lat, lon))" by auto
  with assms(2) have "location st = None" "coord_text lat" "coord_text lon"
    by (simp_all add: enabled_def)
  moreover from assms(3) e have "st' = after_render st (st\<lparr>location := Some (lat @ '','' @ lon)\<rparr>)"
    by (simp only: step_GeoResult_Some option.inject)
  ultimately show ?thesis using assms(1) lookups_ok_position by blast
next
  case False
  from assms(3) obtain st1 where h: "handle e st = Some st1" and s: "st' = after_render st st1"
    by (auto simp: step_def)
  from handle_lookup_frame [OF h] False
  have f: "location st1 = location st \<and> geo_requests st1 = geo_requests st \<and>
    weather_requests st1 = weather_requests st \<and> model_loads st1 = model_loads st" by blast
  then have f': "location st' = location st1 \<and> geo_requests st' = geo_requests st1 \<and>
    weather_requests st' = weather_requests st1 \<and> model_loads st' = model_loads st1"
    by (simp add: s after_render_def Let_def)
  have "lookups_ok st' = lookups_ok st"
    by (rule lookups_ok_cong) (simp_all add: f f')
  with assms(1) show ?thesis by simp
qed

lemma lookups_ok_mount: "lookups_ok (mount rs)"
  by (simp add: lookups_ok_def mount_def initial_state_def emotion_effect_def location_effect_def
      songs_effect_def)

lemma reach_lookups_ok: "reach st \<Longrightarrow> lookups_ok st"
  by (induction rule: reach.induct) (auto intro: lookups_ok_mount lookups_ok_step)



subsection \<open>Properties of the session\<close>

text \<open>C1: in every reachable state, while the spinner is on no songs are held:
  \<^verbatim>\<open>loader\<close> implies \<^verbatim>\<open>randomSongs\<close> is empty.\<close>

theorem reach_loader_no_songs: "reach st \<Longrightarrow> loader st \<Longrightarrow> randomSongs st = []"
  using reach_session_inv by (auto simp: session_inv_def)

theorem reach_loader_no_songs_witness:
  "\<exists>st. run [ClickMood ''Happy''] (mount (sconst 0) :: nat app_state) = Some st \<and>
     reach st \<and> loader st \<and> randomSongs st = []"
proof -
  obtain st where r: "run [ClickMood ''Happy''] (mount (sconst 0) :: nat app_state) = Some st"
    by (simp add: session_eval)
  have "reach (mount (sconst 0) :: nat app_state)" by (rule reach.mounted) (simp add: rng_simps)
  then have reach: "reach st" using r by (rule reach_run)
  moreover from r have "loader st" by (auto simp: session_eval)
  ultimately show ?thesis using r reach_loader_no_songs [OF reach] by blast
qed

text \<open>C2: in every reachable state the songs on display are three, four or five.\<close>

theorem reach_song_count:
  "reach st \<Longrightarrow> randomSongs st \<noteq> [] \<Longrightarrow> 3 \<le> length (randomSongs st) \<and> length (randomSongs st) \<le> 5"
  using reach_session_inv by (auto simp: session_inv_def)

theorem reach_song_count_witness:
  "\<exists>st. run [GeoResult (Some (''1'', ''2'')), WeatherResponse (Some ''Sunny''), ClickMood ''Happy'',
            SearchResponse 0 (Some [1..<11])]
          (mount ([1/2, 0, 0, 1/10, 2/10] @- sconst 0) :: nat app_state) = Some st \<and>
     reach st \<and> randomSongs st = [1, 2, 3] \<and>
     3 \<le> length (randomSongs st) \<and> length (randomSongs st) \<le> 5"
proof -
  obtain st where r: "run [GeoResult (Some (''1'', ''2'')), WeatherResponse (Some ''Sunny''),
      ClickMood ''Happy'', SearchResponse 0 (Some [1..<11])]
      (mount ([1/2, 0, 0, 1/10, 2/10] @- sconst 0) :: nat app_state) = Some st"
    by (simp add: session_eval quotes_def upt_rec)
  have "reach (mount ([1/2, 0, 0, 1/10, 2/10] @- sconst 0) :: nat app_state)"
    by (rule reach.mounted) (simp add: rng_simps)
  then have reach: "reach st" using r by (rule reach_run)
  moreover from r have songs: "randomSongs st = [1, 2, 3]"
    by (auto simp: session_eval quotes_def upt_rec insert_commute)
  ultimately show ?thesis using r reach_song_count [OF reach] by simp
qed

text \<open>C6: a search response with one or two songs makes the handler loop forever,
  for every well-formed generator: \<^verbatim>\<open>randomCount\<close> is at least three and the loop
  can never collect that many distinct indices.\<close>

theorem search_response_short_hangs:
  assumes "rng_wf (rng st)" "0 < length hits" "length hits < 3"
  shows "step (SearchResponse i (Some hits)) st = None"
proof -
  have "3 \<le> random_count (shd (rng st))"
    using assms(1) by (simp add: random_count_bounds rng_wf_shd)
  with assms(3) have "length hits < random_count (shd (rng st))" by simp
  with assms(1,2) have "pick_songs hits (random_count (shd (rng st))) [] {} (stl (rng st)) = None"
    by (intro pick_songs_diverges) (simp_all add: rng_wf_stl)
  with assms(2) show ?thesis
    by (simp add: step_SearchResponse handle_search_response_def select_random_songs_def)
qed

theorem search_response_short_hangs_witness:
  "rng_wf (rng (mount (sconst 0) :: nat app_state)) \<and> 0 < length [7, 8 :: nat] \<and> length [7, 8 :: nat] < 3
   \<and> step (SearchResponse 0 (Some [7, 8 :: nat])) (mount (sconst 0)) = None"
proof -
  have wf: "rng_wf (rng (mount (sconst 0) :: nat app_state))" by (simp add: session_eval rng_simps)
  from search_response_short_hangs [OF wf, of "[7, 8]" 0] wf show ?thesis by simp
qed

text \<open>C9: a mood chosen before the weather is known leaves the spinner on for good
  (no request is issued that could clear it), with the songs emptied and the
  "Detecting weather..." alert shown.\<close>

theorem click_without_weather:
  assumes "\<not> js_truthy (weather st)"
  shows "\<exists>st'. step (ClickMood mood) st = Some st' \<and> view_panel (render st') = Spinner \<and>
           randomSongs st' = [] \<and> search_requests st' = search_requests st \<and>
           ''Detecting weather...'' \<in> set (alerts st')"
proof -
  let ?st1 = "recommendSongs mood st"
  have st1: "search_requests ?st1 = search_requests st"
    "''Detecting weather...'' \<in> set (alerts ?st1)"
    using recommendSongs_no_weather [OF assms] by simp_all
  have "\<not> js_truthy (weather ?st1)" using assms by simp
  then have "search_requests (after_render st ?st1) = search_requests st"
    using st1 by (simp add: search_requests_after_render_no_weather)
  moreover have "''Detecting weather...'' \<in> set (alerts (after_render st ?st1))"
    using st1 alerts_after_render by blast
  moreover have "loader (after_render st ?st1)" by (simp add: loader_after_render)
  moreover have "randomSongs (after_render st ?st1) = []" by (simp add: randomSongs_after_render)
  ultimately show ?thesis by (simp add: step_def render_def)
qed

theorem click_without_weather_witness:
  "\<not> js_truthy (weather (mount (sconst 0) :: nat app_state)) \<and>
   (\<exists>st'. step (ClickMood ''Sad'') (mount (sconst 0) :: nat app_state) = Some st' \<and>
      view_panel (render st') = Spinner \<and> randomSongs st' = [] \<and>
      search_requests st' = search_requests (mount (sconst 0) :: nat app_state) \<and>
      ''Detecting weather...'' \<in> set (alerts st'))"
proof -
  have h: "\<not> js_truthy (weather (mount (sconst 0) :: nat app_state))" by (simp add: session_eval)
  from click_without_weather [OF h, of "''Sad''"] h show ?thesis by blast
qed

text \<open>C10: only a search response or a search failure turns the spinner off; every
  other event leaves it on.\<close>

theorem loader_cleared_only_by_search:
  assumes "step e st = Some st'" "loader st" "\<not> loader st'"
  shows "(\<exists>i tracks. e = SearchResponse i tracks) \<or> (\<exists>i. e = SearchError i)"
proof (rule ccontr)
  assume "\<not> ?thesis"
  then have "\<forall>i tracks. e \<noteq> SearchResponse i tracks" "\<forall>i. e \<noteq> SearchError i" by auto
  moreover from assms(1) obtain st1 where "handle e st = Some st1" "st' = after_render st st1"
    by (auto simp: step_def)
  ultimately have "loader st'" using assms(2) loader_handle_non_search loader_after_render by blast
  with assms(3) show False by simp
qed

theorem loader_cleared_only_by_search_witness:
  "step (SearchError 0) ((mount (sconst 0) :: nat app_state)\<lparr>loader := True\<rparr>)
     = Some ((mount (sconst 0))\<lparr>loader := False, console_errors := 1\<rparr>) \<and>
   loader ((mount (sconst 0) :: nat app_state)\<lparr>loader := True\<rparr>) \<and>
   \<not> loader ((mount (sconst 0) :: nat app_state)\<lparr>loader := False, console_errors := 1\<rparr>) \<and>
   ((\<exists>i tracks. (SearchError 0 :: nat event) = SearchResponse i tracks) \<or>
    (\<exists>i. (SearchError 0 :: nat event) = SearchError i))"
proof -
  have s: "step (SearchError 0) ((mount (sconst 0) :: nat app_state)\<lparr>loader := True\<rparr>)
     = Some ((mount (sconst 0))\<lparr>loader := False, console_errors := 1\<rparr>)"
    by (simp add: step_SearchError search_failed_def session_eval)
  from loader_cleared_only_by_search [OF s] s show ?thesis by simp
qed

text \<open>C12: choosing a new mood while the weather is known sends the same search
  twice: once from the click handler and once from the effect on \<^verbatim>\<open>[emotion]\<close>
  that calls \<^verbatim>\<open>recommendSongs\<close> again.  The request is the mood and the weather
  joined by a space, locale en-US, offset 0, limit 20.\<close>

theorem click_new_mood_requests_twice:
  assumes "emotion st \<noteq> Some mood" "mood \<noteq> []" "weather st = Some w" "w \<noteq> []"
  shows "\<exists>st'. step (ClickMood mood) st = Some st' \<and>
           search_requests st' = search_requests st @ [search_options mood w, search_options mood w]"
  using assms
  by (simp add: step_def after_render_def Let_def songs_effect_def recommendSongs_def)

theorem click_new_mood_requests_twice_witness:
  "emotion ((mount (sconst 0) :: nat app_state)\<lparr>weather := Some ''Sunny''\<rparr>) \<noteq> Some ''Happy'' \<and>
   ''Happy'' \<noteq> [] \<and> weather ((mount (sconst 0) :: nat app_state)\<lparr>weather := Some ''Sunny''\<rparr>) = Some ''Sunny''
   \<and> ''Sunny'' \<noteq> [] \<and>
   (\<exists>st'. step (ClickMood ''Happy'') ((mount (sconst 0) :: nat app_state)\<lparr>weather := Some ''Sunny''\<rparr>) = Some st' \<and>
      search_requests st' = [search_options ''Happy'' ''Sunny'', search_options ''Happy'' ''Sunny''])"
proof -
  have h: "emotion ((mount (sconst 0) :: nat app_state)\<lparr>weather := Some ''Sunny''\<rparr>) \<noteq> Some ''Happy''"
    "search_requests ((mount (sconst 0) :: nat app_state)\<lparr>weather := Some ''Sunny''\<rparr>) = []"
    by (simp_all add: session_eval)
  from click_new_mood_requests_twice [OF h(1), of "''Sunny''"] h show ?thesis by simp
qed

text \<open>C13: choosing the mood already shown sends one search and changes neither the
  quote, the background nor the spoken announcements.\<close>

theorem click_same_mood_requests_once:
  assumes "emotion st = Some mood" "weather st = Some w" "w \<noteq> []"
    and "step (ClickMood mood) st = Some st'"
  shows "search_requests st' = search_requests st @ [search_options mood w] \<and>
    currentQuote st' = currentQuote st \<and> background st' = background st \<and> spoken st' = spoken st"
proof -
  have "st' = recommendSongs mood st"
    using assms(1,4) by (simp add: step_def after_render_unchanged)
  with assms(2,3) show ?thesis by (simp add: recommendSongs_def)
qed

theorem click_same_mood_requests_once_witness:
  "emotion ((mount (sconst 0) :: nat app_state)\<lparr>emotion := Some ''Sad'', weather := Some ''Rain''\<rparr>) = Some ''Sad''
   \<and> step (ClickMood ''Sad'') ((mount (sconst 0) :: nat app_state)\<lparr>emotion := Some ''Sad'', weather := Some ''Rain''\<rparr>)
     = Some (recommendSongs ''Sad'' ((mount (sconst 0))\<lparr>emotion := Some ''Sad'', weather := Some ''Rain''\<rparr>))
   \<and> search_requests (recommendSongs ''Sad'' ((mount (sconst 0) :: nat app_state)\<lparr>emotion := Some ''Sad'', weather := Some ''Rain''\<rparr>))
     = [search_options ''Sad'' ''Rain'']"
proof -
  let ?st = "(mount (sconst 0) :: nat app_state)\<lparr>emotion := Some ''Sad'', weather := Some ''Rain''\<rparr>"
  have e: "emotion ?st = Some ''Sad''" "weather ?st = Some ''Rain''" "search_requests ?st = []"
    by (simp_all add: session_eval)
  have s: "step (ClickMood ''Sad'') ?st = Some (recommendSongs ''Sad'' ?st)"
    using e by (simp add: step_def after_render_unchanged)
  from click_same_mood_requests_once [OF e(1,2) _ s] e s show ?thesis by simp
qed

text \<open>C15: a search that returns an empty list of hits turns the spinner off, shows
  "No songs found!" and leaves everything else as it was.\<close>

theorem empty_hits_response:
  "step (SearchResponse i (Some [])) st
     = Some (st\<lparr>loader := False, alerts := alerts st @ [''No songs found!'']\<rparr>)"
  by (simp add: step_SearchResponse handle_search_response_def)

text \<open>C16: a failed search, and a response without a \<^verbatim>\<open>tracks\<close> field (reading
  \<^verbatim>\<open>tracks.hits\<close> throws into the same \<^verbatim>\<open>catch\<close>), turn the spinner off, log
  one error and show no alert.\<close>

theorem failed_search:
  "step (SearchError i) st = Some (st\<lparr>loader := False, console_errors := Suc (console_errors st)\<rparr>) \<and>
   step (SearchResponse j None) st = step (SearchError i) st"
  by (simp add: step_SearchError step_SearchResponse handle_search_response_def search_failed_def)

text \<open>C26: mounting the component starts loading the face models once and asks for
  the position once; nothing else happens.\<close>

theorem mount_effects: "mount rs = (initial_state rs)\<lparr>model_loads := 1, geo_requests := 1\<rparr>"
  by (simp add: mount_def initial_state_def emotion_effect_def location_effect_def songs_effect_def)

text \<open>C27: the first position sets \<^verbatim>\<open>location\<close> to "latitude,longitude", asks the
  weather service for it, and starts loading the models a second time when they are not
  loaded yet.\<close>

theorem geolocation_issues_weather_request:
  assumes "location st = None" "step (GeoResult (Some (lat, lon))) st = Some st'"
  shows "location st' = Some (lat @ '','' @ lon) \<and>
    weather_requests st' = weather_requests st @ [weather_url (lat @ '','' @ lon)] \<and>
    model_loads st' = (if modelsLoaded st then model_loads st else Suc (model_loads st)) \<and>
    geo_requests st' = geo_requests st"
  using assms
  by (auto simp: step_def after_render_def location_effect_def geolocation_callback_def Let_def)

theorem geolocation_issues_weather_request_witness:
  "location (mount (sconst 0) :: nat app_state) = None \<and>
   (\<exists>st'. step (GeoResult (Some (''52.5'', ''13.4''))) (mount (sconst 0) :: nat app_state) = Some st' \<and>
     weather_requests st' = [weather_url ''52.5,13.4''] \<and> model_loads st' = 2)"
proof -
  have h: "location (mount (sconst 0) :: nat app_state) = None" by (simp add: session_eval)
  obtain st' where s: "step (GeoResult (Some (''52.5'', ''13.4''))) (mount (sconst 0) :: nat app_state) = Some st'"
    by (simp add: step_def)
  from geolocation_issues_weather_request [OF h s] h s show ?thesis by (simp add: session_eval)
qed

text \<open>C28: a failed position lookup (the callback rethrows) and a failed weather
  request (no \<^verbatim>\<open>catch\<close>) change nothing: no retry, no notice, the weather stays
  unknown.\<close>

theorem failed_lookups_ignored:
  "step (GeoResult None) st = Some st \<and> step (WeatherResponse None) st = Some st"
  by (simp add: step_def after_render_def geolocation_callback_def weather_callback_def)

text \<open>C30: every search request the component sends is a GET of the Shazam search
  endpoint with the RapidAPI host header, asks for locale en-US, offset 0 and limit 20,
  and has as term a non-empty mood, a space and a non-empty weather text.\<close>

theorem reach_search_requests_wellformed:
  assumes "reach st" "r \<in> set (search_requests st)"
  shows "req_method r = ''GET'' \<and> req_url r = ''https://shazam.p.rapidapi.com/search'' \<and>
    map_of (req_headers r) ''x-rapidapi-host'' = Some ''shazam.p.rapidapi.com'' \<and>
    req_locale r = ''en-US'' \<and> req_offset r = ''0'' \<and> req_limit r = ''20'' \<and>
    (\<exists>mood w. mood \<noteq> [] \<and> w \<noteq> [] \<and> req_term r = mood @ '' '' @ w)"
proof -
  obtain mood w where "mood \<noteq> []" "w \<noteq> []" "r = search_options mood w"
    using reach_requests_ok [OF assms(1)] assms(2) by (auto simp: requests_ok_def)
  then show ?thesis by (auto simp: search_options_def)
qed

theorem reach_search_requests_wellformed_witness:
  "\<exists>st. run [GeoResult (Some (''1'', ''2'')), WeatherResponse (Some ''Cloudy''), ClickMood ''Fearful'']
          (mount (sconst 0) :: nat app_state) = Some st \<and>
     reach st \<and> search_options ''Fearful'' ''Cloudy'' \<in> set (search_requests st) \<and>
     req_term (search_options ''Fearful'' ''Cloudy'') = ''Fearful Cloudy''"
proof -
  obtain st where r: "run [GeoResult (Some (''1'', ''2'')), WeatherResponse (Some ''Cloudy''),
      ClickMood ''Fearful''] (mount (sconst 0) :: nat app_state) = Some st"
    by (simp add: session_eval)
  have "reach (mount (sconst 0) :: nat app_state)" by (rule reach.mounted) (simp add: rng_simps)
  then have reach: "reach st" using r by (rule reach_run)
  moreover from r have m: "search_options ''Fearful'' ''Cloudy'' \<in> set (search_requests st)"
    by (auto simp: session_eval)
  moreover have "req_term (search_options ''Fearful'' ''Cloudy'') = ''Fearful Cloudy''"
    using reach_search_requests_wellformed [OF reach m] by (simp add: search_options_def)
  ultimately show ?thesis using r by blast
qed

text \<open>C31: a new mood reported by the webcam dialog (\<^verbatim>\<open>setEmotion\<close>) sends the search
  once, through the effect on \<^verbatim>\<open>[emotion]\<close>, and switches the gradient; unlike a
  button click, no second request is sent.\<close>

theorem detected_new_mood_requests_once:
  assumes "emotion st \<noteq> Some mood" "mood \<noteq> []" "weather st = Some w" "w \<noteq> []"
  shows "\<exists>st'. step (Detected mood) st = Some st' \<and>
           search_requests st' = search_requests st @ [search_options mood w] \<and>
           background st' = getBackgroundColor mood \<and> loader st'"
  using assms
  by (simp add: step_def after_render_def Let_def songs_effect_def recommendSongs_def
      emotion_effect_def split_beta)

theorem detected_new_mood_requests_once_witness:
  "emotion ((mount (sconst 0) :: nat app_state)\<lparr>weather := Some ''Snow''\<rparr>) \<noteq> Some ''Neutral'' \<and>
   (\<exists>st'. step (Detected ''Neutral'') ((mount (sconst 0) :: nat app_state)\<lparr>weather := Some ''Snow''\<rparr>)
       = Some st' \<and> search_requests st' = [search_options ''Neutral'' ''Snow''] \<and> loader st')"
proof -
  have h: "emotion ((mount (sconst 0) :: nat app_state)\<lparr>weather := Some ''Snow''\<rparr>) \<noteq> Some ''Neutral''"
    "search_requests ((mount (sconst 0) :: nat app_state)\<lparr>weather := Some ''Snow''\<rparr>) = []"
    by (simp_all add: session_eval)
  from detected_new_mood_requests_once [OF h(1), of "''Snow''"] h show ?thesis by auto
qed

text \<open>C32: the position reported to the geolocation callback reaches the weather
  service intact: the one weather request it triggers carries, in its \<^verbatim>\<open>q\<close>
  parameter, a text that splits at the comma back into the latitude and the longitude.\<close>

theorem weather_query_roundtrip:
  assumes "reach st" "enabled (GeoResult (Some (lat, lon))) st"
    and "step (GeoResult (Some (lat, lon))) st = Some st'"
  shows "\<exists>url. weather_requests st' = [url] \<and>
    map_option (split_at (CHR '','')) (map_of (query_params url) ''q'') = Some (lat, lon)"
proof -
  from assms(2) have none: "location st = None" and c: "coord_text lat" "coord_text lon"
    by (simp_all add: enabled_def)
  from reach_lookups_ok [OF assms(1)] none have w0: "weather_requests st = []"
    by (simp add: lookups_ok_def)
  from assms(3) have st': "st' = after_render st (st\<lparr>location := Some (lat @ '','' @ lon)\<rparr>)"
    by (simp only: step_GeoResult_Some option.inject)
  have "weather_requests st' = [weather_url (lat @ '','' @ lon)]"
    unfolding st' using after_render_position [OF none, of "lat @ '','' @ lon"] w0 by simp
  moreover have "map_of (query_params (weather_url (lat @ '','' @ lon))) ''q'' = Some (lat @ '','' @ lon)"
    using coord_text_no_sep [OF c(1)] coord_text_no_sep [OF c(2)]
    by (simp add: query_params_def weather_url_def split_at_def)
  ultimately show ?thesis using coord_text_no_sep [OF c(1)] by simp
qed

theorem weather_query_roundtrip_witness:
  "\<exists>url. weather_requests (the (step (GeoResult (Some (''52.5'', ''-0.12'')))
            (mount (sconst 0) :: nat app_state))) = [url] \<and>
     map_option (split_at (CHR '','')) (map_of (query_params url) ''q'') = Some (''52.5'', ''-0.12'')"
proof -
  have r: "reach (mount (sconst 0) :: nat app_state)" by (rule reach.mounted) (simp add: rng_simps)
  have e: "enabled (GeoResult (Some (''52.5'', ''-0.12''))) (mount (sconst 0) :: nat app_state)"
    by (simp add: session_eval)
  obtain st' where s: "step (GeoResult (Some (''52.5'', ''-0.12''))) (mount (sconst 0) :: nat app_state) = Some st'"
    by (simp add: step_def)
  from weather_query_roundtrip [OF r e s] s show ?thesis by simp
qed

text \<open>C33: the external lookups are bounded: in every reachable state the position
  has been asked for once, the weather at most once, and the loading of the face
  models started once or twice (twice when the position arrives before the models).\<close>

theorem reach_lookup_bounds:
  assumes "reach st"
  shows "geo_requests st = 1 \<and> length (weather_requests st) \<le> 1 \<and>
    1 \<le> model_loads st \<and> model_loads st \<le> 2"
  using reach_lookups_ok [OF assms] by (auto simp: lookups_ok_def split: option.splits)

theorem reach_lookup_bounds_witness:
  "\<exists>st. run [GeoResult (Some (''52.5'', ''13.4''))] (mount (sconst 0) :: nat app_state) = Some st \<and>
     geo_requests st = 1 \<and> length (weather_requests st) \<le> 1 \<and> model_loads st = 2"
proof -
  obtain st where r: "run [GeoResult (Some (''52.5'', ''13.4''))] (mount (sconst 0) :: nat app_state) = Some st"
    by (simp add: session_eval)
  have "reach (mount (sconst 0) :: nat app_state)" by (rule reach.mounted) (simp add: rng_simps)
  then have "reach st" using r by (rule reach_run)
  from reach_lookup_bounds [OF this] r show ?thesis by (auto simp: session_eval)
qed

text \<open>C37: every handler returns except the selection loop.  A step fails to return
  exactly when it delivers a non-empty search response and the selection over it never
  exits; the buttons, the dialog, the model, position and weather callbacks, an empty
  or malformed response and a failed search always complete.\<close>

theorem step_returns:
  "step e st = None \<longleftrightarrow>
   (\<exists>i hits. e = SearchResponse i (Some hits) \<and> hits \<noteq> [] \<and> select_random_songs hits (rng st) = None)"
  by (cases e) (auto simp: step_def handle_search_response_def split: option.splits)

end
