(* ===== verification/Controller.thy ===== *)
theory Controller
  imports Session
begin

text \<open>
  The SessionController contract of the specification (sections 3 and 4.3), as an
  abstract machine over the \<^emph>\<open>SessionState\<close> record (current emotion, weather,
  loading flag, selected tracks), and its relation to the component.
  \<open>abs_session\<close> reads the abstract state off the component's state (a falsy weather
  text counts as absent, as the code's \<^verbatim>\<open>if (!weather)\<close> reads it); \<open>spec_step\<close>
  is the contract's transition relation, labelled with the component's events.
  A requested recommendation clears the tracks and sets the loading flag when the
  weather is known, and ends in the \<^emph>\<open>NoWeather\<close> exit with the flag cleared when it is
  not; a search result is taken only while loading, and discarded otherwise; events the controller does not
  own leave the state alone.  \<open>diverges\<close> names the situations in which the
  component leaves the contract: the refinement theorem shows that everywhere else
  each step of the component is a step of the contract, and the divergence theorem that
  in each named situation it is not.
\<close>

record 't session_spec =
  sp_emotion :: "string option"
  sp_weather :: "string option"
  sp_loading :: bool
  sp_tracks :: "'t list"

definition abs_session :: "'t app_state \<Rightarrow> 't session_spec" where
  "abs_session st =
     \<lparr>sp_emotion = emotion st, sp_weather = (if js_truthy (weather st) then weather st else None),
      sp_loading = loader st, sp_tracks = randomSongs st\<rparr>"

text \<open>The mood a user action or the dialog asks recommendations for.\<close>

fun requested :: "'t event \<Rightarrow> string option" where
  "requested (ClickMood label) = Some label"
| "requested (Detected label) = Some label"
| "requested _ = None"

text \<open>Events outside the controller: the dialog, the models, the position, a failed
  weather request.\<close>

fun outside_controller :: "'t event \<Rightarrow> bool" where
  "outside_controller OpenWebcam = True"
| "outside_controller CloseWebcam = True"
| "outside_controller ModelsReady = True"
| "outside_controller (GeoResult _) = True"
| "outside_controller (WeatherResponse None) = True"
| "outside_controller _ = False"

inductive spec_step :: "'t event \<Rightarrow> 't session_spec \<Rightarrow> 't session_spec \<Rightarrow> bool" where
  request: "requested e = Some label \<Longrightarrow> sp_weather s \<noteq> None \<Longrightarrow>
    spec_step e s (s\<lparr>sp_emotion := Some label, sp_loading := True, sp_tracks := []\<rparr>)"
| no_weather: "requested e = Some label \<Longrightarrow> sp_weather s = None \<Longrightarrow>
    spec_step e s (s\<lparr>sp_emotion := Some label, sp_loading := False, sp_tracks := []\<rparr>)"
| results: "sp_loading s \<Longrightarrow> hits \<noteq> [] \<Longrightarrow> 3 \<le> k \<Longrightarrow> k \<le> 5 \<Longrightarrow>
    select_spec hits (min k (length hits)) sel \<Longrightarrow>
    spec_step (SearchResponse i (Some hits)) s (s\<lparr>sp_loading := False, sp_tracks := sel\<rparr>)"
| no_results: "sp_loading s \<Longrightarrow>
    spec_step (SearchResponse i (Some [])) s (s\<lparr>sp_loading := False, sp_tracks := []\<rparr>)"
| failed: "spec_step (SearchResponse i None) s (s\<lparr>sp_loading := False\<rparr>)"
| stale: "\<not> sp_loading s \<Longrightarrow> spec_step (SearchResponse i r) s s"
| failed_error: "spec_step (SearchError i) s (s\<lparr>sp_loading := False\<rparr>)"
| weather: "spec_step (WeatherResponse (Some text)) s
    (s\<lparr>sp_weather := (if text = [] then None else Some text)\<rparr>)"
| other: "outside_controller e \<Longrightarrow> spec_step e s s"

text \<open>Where the component leaves the contract: a mood asked for while the weather is
  unknown (the spinner stays on), a search response arriving while no search is
  pending (stale or duplicate, displayed anyway), a mood the dialog reports again while
  songs are shown (nothing is requested), and an empty label from the dialog.\<close>

fun diverges :: "'t event \<Rightarrow> 't app_state \<Rightarrow> bool" where
  "diverges (ClickMood label) st = (\<not> js_truthy (weather st))"
| "diverges (Detected label) st =
     (label = [] \<or> \<not> js_truthy (weather st) \<or> (emotion st = Some label \<and> \<not> loader st))"
| "diverges (SearchResponse i (Some hits)) st = (hits \<noteq> [] \<and> \<not> loader st)"
| "diverges _ st = False"

text \<open>Runs of the contract, and the runs of the component that stay clear of the
  divergences: no event of the list is sent in a situation \<open>diverges\<close> names.\<close>

inductive spec_run :: "'t event list \<Rightarrow> 't session_spec \<Rightarrow> 't session_spec \<Rightarrow> bool" where
  nil: "spec_run [] s s"
| cons: "spec_step e s s1 \<Longrightarrow> spec_run es s1 s2 \<Longrightarrow> spec_run (e # es) s s2"

fun conforms :: "'t event list \<Rightarrow> 't app_state \<Rightarrow> bool" where
  "conforms [] st = True"
| "conforms (e # es) st =
     (\<not> diverges e st \<and> (case step e st of None \<Rightarrow> True | Some st' \<Rightarrow> conforms es st'))"

inductive_cases spec_step_ClickMood: "spec_step (ClickMood label) s s'"
inductive_cases spec_step_Detected: "spec_step (Detected label) s s'"

subsection \<open>The abstraction through the render cycle\<close>

lemma abs_session_upd [simp]:
  "abs_session (st\<lparr>loader := b\<rparr>) = (abs_session st)\<lparr>sp_loading := b\<rparr>"
  "abs_session (st\<lparr>randomSongs := xs\<rparr>) = (abs_session st)\<lparr>sp_tracks := xs\<rparr>"
  "abs_session (st\<lparr>emotion := m\<rparr>) = (abs_session st)\<lparr>sp_emotion := m\<rparr>"
  "abs_session (st\<lparr>weather := Some w\<rparr>) =
     (abs_session st)\<lparr>sp_weather := (if w = [] then None else Some w)\<rparr>"
  "abs_session (st\<lparr>rng := rs\<rparr>) = abs_session st"
  "abs_session (st\<lparr>alerts := as\<rparr>) = abs_session st"
  "abs_session (st\<lparr>console_errors := n\<rparr>) = abs_session st"
  "abs_session (st\<lparr>webcamModal := c\<rparr>) = abs_session st"
  "abs_session (st\<lparr>modelsLoaded := c\<rparr>) = abs_session st"
  "abs_session (st\<lparr>location := l\<rparr>) = abs_session st"
  by (simp_all add: abs_session_def)

text \<open>An abstract field set to the value it already has.\<close>

lemma abs_session_upd_same [simp]:
  "b = loader st \<Longrightarrow> (abs_session st)\<lparr>sp_loading := b\<rparr> = abs_session st"
  "xs = randomSongs st \<Longrightarrow> (abs_session st)\<lparr>sp_tracks := xs\<rparr> = abs_session st"
  "m = emotion st \<Longrightarrow> (abs_session st)\<lparr>sp_emotion := m\<rparr> = abs_session st"
  by (simp_all add: abs_session_def)

lemma abs_session_sel [simp]:
  "sp_emotion (abs_session st) = emotion st"
  "sp_loading (abs_session st) = loader st"
  "sp_tracks (abs_session st) = randomSongs st"
  "sp_weather (abs_session st) = (if js_truthy (weather st) then weather st else None)"
  by (simp_all add: abs_session_def)

lemma abs_session_effects [simp]:
  "abs_session (emotion_effect st) = abs_session st"
  "abs_session (location_effect st) = abs_session st"
  "abs_session (recommendSongs label st) =
     (abs_session st)\<lparr>sp_emotion := Some label, sp_loading := True, sp_tracks := []\<rparr>"
  by (simp_all add: abs_session_def)

lemma abs_session_songs_effect:
  "abs_session (songs_effect st) =
     (case emotion st of
        Some e \<Rightarrow> if e \<noteq> [] then
                  (abs_session st)\<lparr>sp_emotion := Some e, sp_loading := True, sp_tracks := []\<rparr>
                else abs_session st
      | None \<Rightarrow> abs_session st)"
  by (simp add: songs_effect_def split: option.splits)

lemma abs_session_after_render:
  "abs_session (after_render prev st) =
     (if emotion prev \<noteq> emotion st then abs_session (songs_effect st) else abs_session st)"
  by (simp add: after_render_def Let_def abs_session_songs_effect split: option.splits)

lemma abs_session_step_frame:
  "handle e st = Some st1 \<Longrightarrow> emotion st1 = emotion st \<Longrightarrow> step e st = Some st' \<Longrightarrow>
   abs_session st' = abs_session st1"
  by (auto simp: step_def abs_session_after_render)

lemma select_spec_le: "select_spec songs k sel \<Longrightarrow> k \<le> length songs"
proof -
  assume "select_spec songs k sel"
  then obtain idx where "distinct idx" "length idx = k" "set idx \<subseteq> {..<length songs}"
    by (auto simp: select_spec_def)
  then show ?thesis using card_mono [of "{..<length songs}" "set idx"] by (simp add: distinct_card)
qed

lemma spec_request_code:
  assumes "requested e = Some label" "js_truthy (weather st)"
  shows "spec_step e (abs_session st)
    ((abs_session st)\<lparr>sp_emotion := Some label, sp_loading := True, sp_tracks := []\<rparr>)"
  using assms by (intro spec_step.request) (auto simp: abs_session_def js_truthy_def split: option.splits)

lemma outside_controller_requested: "outside_controller e \<Longrightarrow> requested e = None"
  by (cases e) simp_all

lemma abs_step_request:
  assumes "requested e = Some label" "label \<noteq> []" "step e st = Some st'"
    and "(\<exists>l. e = ClickMood l) \<or> emotion st \<noteq> Some label \<or> (loader st \<and> randomSongs st = [])"
  shows "abs_session st' =
    (abs_session st)\<lparr>sp_emotion := Some label, sp_loading := True, sp_tracks := []\<rparr>"
proof (cases e)
  case (ClickMood l)
  with assms(1,3) show ?thesis
    by (auto simp: step_def abs_session_after_render abs_session_songs_effect)
next
  case (Detected l)
  show ?thesis
  proof (cases "emotion st = Some label")
    case True
    with assms(4) Detected have "loader st" "randomSongs st = []" by auto
    with True assms(1,3) Detected show ?thesis
      by (auto simp: step_def abs_session_after_render)
  next
    case False
    with assms(1,2,3) Detected show ?thesis
      by (auto simp: step_def abs_session_after_render abs_session_songs_effect)
  qed
qed (use assms(1) in simp_all)

lemma abs_step_outside:
  "outside_controller e \<Longrightarrow> step e st = Some st' \<Longrightarrow> abs_session st' = abs_session st"
  by (cases e) (auto simp: step_def abs_session_after_render geolocation_callback_def
      weather_callback_def split: option.splits)

lemma spec_step_outside:
  assumes "step e st = Some st'" "outside_controller e"
  shows "spec_step e (abs_session st) (abs_session st')"
proof -
  have "abs_session st' = abs_session st" using assms(2,1) by (rule abs_step_outside)
  with assms(2) show ?thesis by (simp add: spec_step.other)
qed

lemma abs_step_weather:
  "step (WeatherResponse (Some text)) st = Some st' \<Longrightarrow>
   abs_session st' = (abs_session st)\<lparr>sp_weather := (if text = [] then None else Some text)\<rparr>"
  by (auto simp: step_def abs_session_after_render weather_callback_def)

lemma abs_step_search:
  assumes "session_inv st" "step (SearchResponse i r) st = Some st'"
    and "\<not> diverges (SearchResponse i r) st"
  shows "spec_step (SearchResponse i r) (abs_session st) (abs_session st')"
proof (cases r)
  case None
  with assms(2) have "st' = search_failed st" by (simp add: step_SearchResponse handle_search_response_def)
  then show ?thesis using None spec_step.failed [of i "abs_session st"]
    by (simp add: search_failed_def)
next
  case (Some hits)
  show ?thesis
  proof (cases "hits = []")
    case True
    with Some assms(2) have st': "st' = st\<lparr>loader := False, alerts := alerts st @ [''No songs found!'']\<rparr>"
      by (simp add: step_SearchResponse handle_search_response_def)
    show ?thesis
    proof (cases "loader st")
      case True
      with assms(1) have "randomSongs st = []" by (simp add: session_inv_def)
      have "sp_loading (abs_session st)" using True by (simp add: abs_session_def)
      then have "spec_step (SearchResponse i (Some [])) (abs_session st)
          ((abs_session st)\<lparr>sp_loading := False, sp_tracks := []\<rparr>)"
        by (rule spec_step.no_results)
      moreover have "(abs_session st)\<lparr>sp_loading := False, sp_tracks := []\<rparr> = abs_session st'"
        using st' \<open>randomSongs st = []\<close> by (simp add: abs_session_def)
      ultimately show ?thesis using Some \<open>hits = []\<close> by simp
    next
      case False
      with st' \<open>hits = []\<close> Some show ?thesis
        using spec_step.stale [of "abs_session st" i r] by simp
    qed
  next
    case False
    with Some assms(3) have loading: "loader st" by simp
    from False Some assms(2) obtain sel rs where
      sel: "select_random_songs hits (rng st) = Some (sel, rs)" and
      st': "st' = st\<lparr>rng := rs, loader := False, randomSongs := sel\<rparr>"
      by (auto simp: step_SearchResponse handle_search_response_def split: option.splits)
    have wf: "rng_wf (rng st)" using assms(1) by (simp add: session_inv_def)
    from select_random_songs_sound [OF sel wf] False
    have spec: "select_spec hits (random_count (shd (rng st))) sel" by simp
    have "3 \<le> random_count (shd (rng st)) \<and> random_count (shd (rng st)) \<le> 5"
      using wf by (simp add: random_count_bounds rng_wf_shd)
    moreover have "min (random_count (shd (rng st))) (length hits) = random_count (shd (rng st))"
      using select_spec_le [OF spec] by simp
    ultimately show ?thesis
      using spec_step.results [of "abs_session st" hits "random_count (shd (rng st))" sel i]
        loading spec False Some st' by simp
  qed
qed

subsection \<open>Refinement and divergence\<close>

text \<open>One step of the component, outside the divergences, is a step of the contract.\<close>

lemma step_refines:
  assumes "reach st" "enabled e st" "step e st = Some st'" "\<not> diverges e st"
  shows "spec_step e (abs_session st) (abs_session st')"
proof -
  have inv: "session_inv st" using assms(1) by (rule reach_session_inv)
  have out: "outside_controller e \<Longrightarrow> spec_step e (abs_session st) (abs_session st')"
    using assms(3) by (rule spec_step_outside)
  show ?thesis
  proof (cases e)
    case (ClickMood label)
    with assms(2,4) have ne: "label \<noteq> []" and w: "js_truthy (weather st)"
      by (auto simp: enabled_def emotion_buttons_def)
    have "abs_session st' =
        (abs_session st)\<lparr>sp_emotion := Some label, sp_loading := True, sp_tracks := []\<rparr>"
      by (rule abs_step_request [OF _ ne assms(3)]) (simp_all add: ClickMood)
    with spec_request_code [of e label st] ClickMood w show ?thesis by simp
  next
    case (Detected label)
    with assms(4) have ne: "label \<noteq> []" and w: "js_truthy (weather st)"
      and d: "emotion st \<noteq> Some label \<or> loader st" by auto
    from d inv have "emotion st \<noteq> Some label \<or> (loader st \<and> randomSongs st = [])"
      by (auto simp: session_inv_def)
    then have "abs_session st' =
        (abs_session st)\<lparr>sp_emotion := Some label, sp_loading := True, sp_tracks := []\<rparr>"
      by (intro abs_step_request [OF _ ne assms(3)]) (simp_all add: Detected)
    with spec_request_code [of e label st] Detected w show ?thesis by simp
  next
    case (SearchResponse i r)
    with abs_step_search [OF inv] assms(3,4) show ?thesis by simp
  next
    case (SearchError i)
    with assms(3) have "st' = search_failed st" by (simp add: step_SearchError)
    with SearchError show ?thesis
      using spec_step.failed_error [of i "abs_session st"] by (simp add: search_failed_def)
  next
    case (WeatherResponse w)
    show ?thesis
    proof (cases w)
      case None
      with WeatherResponse show ?thesis by (intro out) simp
    next
      case (Some cond)
      with WeatherResponse assms(3) show ?thesis by (simp add: abs_step_weather spec_step.weather)
    qed
  qed (rule out, simp)+
qed

text \<open>C34: the component refines the SessionController contract.  From every reachable
  state, a run of events the environment allows in which no event meets a situation
  \<open>diverges\<close> names moves the abstract state (emotion, weather, loading flag,
  tracks) along a run of the contract with the same events: a request clears the tracks
  and sets the loading flag, a result replaces them by a choice of three to five
  distinct positions of the response, an empty or failed search clears the flag, a
  stale response is discarded, other events leave the abstract state alone.\<close>

theorem controller_refinement:
  assumes "reach st" "run es st = Some st'" "conforms es st"
  shows "spec_run es (abs_session st) (abs_session st')"
  using assms
proof (induction es arbitrary: st)
  case Nil
  then show ?case by (simp add: spec_run.nil)
next
  case (Cons e es)
  from Cons.prems(2) obtain st1 where en: "enabled e st" and s: "step e st = Some st1"
    and r: "run es st1 = Some st'"
    by (auto split: if_splits option.splits)
  from Cons.prems(3) s have nd: "\<not> diverges e st" and c: "conforms es st1" by simp_all
  have "reach st1" using Cons.prems(1) en s by (rule reach.stepped)
  from this r c have "spec_run es (abs_session st1) (abs_session st')" by (rule Cons.IH)
  with step_refines [OF Cons.prems(1) en s nd] show ?case by (rule spec_run.cons)
qed

theorem controller_refinement_witness:
  "\<exists>st'. run [GeoResult (Some (''1'', ''2'')), WeatherResponse (Some ''Sunny''), ClickMood ''Happy'']
            (mount (sconst 0) :: nat app_state) = Some st' \<and>
     conforms [GeoResult (Some (''1'', ''2'')), WeatherResponse (Some ''Sunny''), ClickMood ''Happy'']
            (mount (sconst 0) :: nat app_state) \<and>
     spec_run [GeoResult (Some (''1'', ''2'')), WeatherResponse (Some ''Sunny''), ClickMood ''Happy'']
       (abs_session (mount (sconst 0) :: nat app_state)) (abs_session st')"
proof -
  obtain st' where r: "run [GeoResult (Some (''1'', ''2'')), WeatherResponse (Some ''Sunny''),
      ClickMood ''Happy''] (mount (sconst 0) :: nat app_state) = Some st'"
    by (simp add: session_eval)
  have re: "reach (mount (sconst 0) :: nat app_state)" by (rule reach.mounted) (simp add: rng_simps)
  have c: "conforms [GeoResult (Some (''1'', ''2'')), WeatherResponse (Some ''Sunny''),
      ClickMood ''Happy''] (mount (sconst 0) :: nat app_state)"
    by (simp add: session_eval)
  from controller_refinement [OF re r c] r c show ?thesis by blast
qed

text \<open>C35: the \<^emph>\<open>NoWeather\<close> exit of the contract is not implemented.  A mood asked for
  while the weather is unknown, by a button or as a new mood from the dialog, leaves the
  loading flag set, and no step of the contract, which clears it on this path, leads
  from the abstract state before to the one after.\<close>

theorem no_weather_divergence:
  assumes "requested e = Some label" "label \<noteq> []" "\<not> js_truthy (weather st)"
    and "step e st = Some st'" "e = ClickMood label \<or> emotion st \<noteq> Some label"
  shows "sp_loading (abs_session st') \<and> \<not> spec_step e (abs_session st) (abs_session st')"
proof -
  have "abs_session st' =
      (abs_session st)\<lparr>sp_emotion := Some label, sp_loading := True, sp_tracks := []\<rparr>"
    using assms(5) by (intro abs_step_request [OF assms(1,2,4)]) auto
  then have l: "sp_loading (abs_session st')" by simp
  have w: "sp_weather (abs_session st) = None" using assms(3) by simp
  show ?thesis
  proof (intro conjI notI)
    show "sp_loading (abs_session st')" by (fact l)
  next
    assume "spec_step e (abs_session st) (abs_session st')"
    then show False using assms(1) l w
      by (cases rule: spec_step.cases) (auto dest: outside_controller_requested)
  qed
qed

theorem no_weather_divergence_witness:
  "\<exists>st'. step (ClickMood ''Sad'') (mount (sconst 0) :: nat app_state) = Some st' \<and>
     sp_loading (abs_session st') \<and>
     \<not> spec_step (ClickMood ''Sad'') (abs_session (mount (sconst 0) :: nat app_state)) (abs_session st')"
proof -
  obtain st' where s: "step (ClickMood ''Sad'') (mount (sconst 0) :: nat app_state) = Some st'"
    by (simp add: step_def)
  have w: "\<not> js_truthy (weather (mount (sconst 0) :: nat app_state))" by (simp add: session_eval)
  from no_weather_divergence [OF _ _ w s] s show ?thesis by auto
qed

text \<open>C36: a mood the dialog reports again is not a new request.  When the dialog reports
  the mood already shown while its songs are on the page and the weather is known, the
  component changes nothing and sends no search (the effect on \<^verbatim>\<open>[emotion]\<close> does
  not run for an unchanged value), while the contract's \<^verbatim>\<open>onEmotionDetected\<close> starts a
  recommendation: no step of the contract stays in place here.\<close>

theorem detected_same_mood_divergence:
  assumes "emotion st = Some label" "\<not> loader st" "js_truthy (weather st)"
    and "step (Detected label) st = Some st'"
  shows "search_requests st' = search_requests st \<and> abs_session st' = abs_session st \<and>
    \<not> spec_step (Detected label) (abs_session st) (abs_session st')"
proof -
  from assms(1,4) have st': "st' = st\<lparr>emotion := Some label\<rparr>"
    by (simp add: step_def after_render_unchanged)
  then have a: "abs_session st' = abs_session st" using assms(1) by simp
  have l: "\<not> sp_loading (abs_session st)" and w: "sp_weather (abs_session st) \<noteq> None"
    using assms(2,3) by (simp_all add: js_truthy_def split: option.splits)
  have "\<not> spec_step (Detected label) (abs_session st) (abs_session st)"
  proof
    assume "spec_step (Detected label) (abs_session st) (abs_session st)"
    then show False using l w
      by (cases rule: spec_step.cases) (auto dest: arg_cong [where f = sp_loading])
  qed
  with st' a show ?thesis by simp
qed

theorem detected_same_mood_divergence_witness:
  "\<exists>st'. step (Detected ''Happy'')
       ((initial_state (sconst 0) :: nat app_state)\<lparr>weather := Some ''Sunny'', emotion := Some ''Happy''\<rparr>)
       = Some st' \<and>
     \<not> spec_step (Detected ''Happy'')
       (abs_session ((initial_state (sconst 0) :: nat app_state)\<lparr>weather := Some ''Sunny'', emotion := Some ''Happy''\<rparr>))
       (abs_session st')"
proof -
  let ?st = "(initial_state (sconst 0) :: nat app_state)\<lparr>weather := Some ''Sunny'', emotion := Some ''Happy''\<rparr>"
  obtain st' where s: "step (Detected ''Happy'') ?st = Some st'" by (simp add: step_def)
  have h: "emotion ?st = Some ''Happy''" "\<not> loader ?st" "js_truthy (weather ?st)"
    by (simp_all add: initial_state_def)
  from detected_same_mood_divergence [OF h s] s show ?thesis by blast
qed

end
