(* ===== verification/Spec2Isabelle.thy ===== *)
theory Spec2Isabelle
  imports Controller
begin

text \<open>
  \<^bold>\<open>A verification development of the mood-music widget\<close>
  (\<^verbatim>\<open>src/src/components/MainComponen.js\<close>, the React component \<^verbatim>\<open>MainComponent\<close>).

  \<^bold>\<open>The program.\<close>  One React component keeps eight \<^verbatim>\<open>useState\<close> hooks (lines 59--66):
  the spinner flag \<^verbatim>\<open>loader\<close>, the songs on display \<^verbatim>\<open>randomSongs\<close>, the webcam
  dialog flag, the current \<^verbatim>\<open>emotion\<close>, the \<^verbatim>\<open>weather\<close> text, the \<^verbatim>\<open>location\<close>
  string, \<^verbatim>\<open>modelsLoaded\<close> and \<^verbatim>\<open>currentQuote\<close>.  Three effects react to state
  changes: on \<^verbatim>\<open>[emotion]\<close> it sets the page gradient, speaks the mood and draws a
  quote (lines 91--97); on \<^verbatim>\<open>[location]\<close> it loads the face models, asks for the
  position or asks the weather service (116--143); on \<^verbatim>\<open>[emotion]\<close> again it calls
  \<^verbatim>\<open>recommendSongs\<close> (145--147).  \<^verbatim>\<open>recommendSongs\<close> (150--204) turns the
  spinner on, empties the songs, alerts when the weather is unknown, and otherwise sends
  a music search whose response handler picks three to five random songs by a
  rejection-sampling loop.  The seven mood buttons call \<^verbatim>\<open>recommendSongs\<close>
  directly; the webcam dialog (a component outside \<^verbatim>\<open>src/\<close>) calls
  \<^verbatim>\<open>setEmotion\<close>.

  \<^bold>\<open>Theories.\<close>
  \<^item> \<open>Prelude\<close>: the random source.  Every \<^verbatim>\<open>Math.random()\<close> of the program
    draws the next value of one generator, modelled as a \<open>real stream\<close>; a well-formed
    generator (\<open>rng_wf\<close>) yields values in \<open>[0, 1)\<close>.  \<open>random_index r n\<close> is
    \<^verbatim>\<open>Math.floor(r * n)\<close>, \<open>js_truthy\<close> the truthiness of an optional string.
    The reading side of a request, as a service parses it: \<open>split_on\<close>
    (\<^verbatim>\<open>String.prototype.split\<close> on one character), \<open>split_at\<close> and the query
    parameters \<open>query_params\<close> of a URL, with their lemmas on appended strings.
  \<^item> \<open>MoodMapper\<close>: the tables \<^verbatim>\<open>quotes\<close>, the switch
    \<^verbatim>\<open>getBackgroundColor\<close>, the draw \<^verbatim>\<open>getRandomQuote\<close> (returning the quote, a
    string or \<^verbatim>\<open>undefined\<close>, and the generator after the call; the lookup sees own
    keys and inherited \<^verbatim>\<open>Object.prototype\<close> members), \<^verbatim>\<open>announceEmotion\<close>, the
    button labels.
    Lemmas: the gradients are distinct and total, a quote comes from its mood's pool
    and each quote is chosen on an interval of width \<open>1/n\<close>, the three tables agree.
  \<^item> \<open>Selector\<close>: the selection loop (lines 180--190) as the
    \<^theory_text>\<open>partial_function (option)\<close> \<open>pick_songs\<close> and the block
    \<open>select_random_songs\<close>.  Lemmas: what it returns refines the contract
    \<open>select_spec\<close> (distinct positions, \<^verbatim>\<open>randomCount\<close> of them, three to
    five), every outcome of the contract is reachable, the loop returns exactly when a
    finite prefix of draws covers \<^verbatim>\<open>randomCount\<close> distinct indices, and it never
    returns when the response is shorter than \<^verbatim>\<open>randomCount\<close>.
  \<^item> \<open>Session\<close>: the component as a state machine.  \<open>app_state\<close> holds the
    eight hooks and the observable effects (gradient, utterances, alerts, console
    errors, the search, weather, position and model-loading requests issued) and the
    generator.  \<open>handle\<close> runs the handler of an event (\<open>recommendSongs\<close>,
    \<open>handle_search_response\<close>, \<open>search_failed\<close>, \<open>geolocation_callback\<close>,
    \<open>weather_callback\<close>, the dialog and model-loading setters); \<open>after_render\<close>
    runs the effects whose dependencies changed in declaration order
    (\<open>emotion_effect\<close>, \<open>location_effect\<close>, \<open>songs_effect\<close>); \<open>step\<close> is
    both, \<open>mount\<close> the first render.  \<open>reach\<close> is the inductive set of states
    reachable from a mount with a well-formed generator, where the environment may
    deliver any event that can occur (\<open>enabled\<close>: a response only to a request that
    was sent, a detection only while the dialog is open, a position once and only while
    \<^verbatim>\<open>location\<close> is unset, as two number texts).  \<open>render\<close> is the JSX of
    lines 206--309.  Lemmas: the invariant \<open>session_inv\<close> (well-formed generator,
    spinner excludes songs, three to five songs) and the presentation invariant
    \<open>presentation_ok\<close> (gradient and quote of the mood shown, stated with
    \<open>MoodMapper.quote_fits\<close>) hold in every reachable state; the behaviour of each
    handler on every branch; frame lemmas saying which fields each effect leaves alone.
    The external lookups: the weather request is the URL \<open>weather_url\<close> of lines
    136--139; the invariant \<open>lookups_ok\<close> (one position request, once the position is
    known one weather request carrying it, the model loading started once or twice)
    holds in every reachable state, and the position comes back intact from the
    \<^verbatim>\<open>q\<close> parameter of the request (a round trip through \<open>query_params\<close> and
    \<open>split_at\<close>).  A search request is the whole axios options object
    (\<open>search_request\<close>: method, URL, parameters, headers).  Every step returns except a non-empty search
    response whose selection loop never exits (\<open>step_returns\<close>).
  \<^item> \<open>Controller\<close>: the SessionController contract of spec sections 3 and 4.3 as
    an abstract machine \<open>spec_step\<close> over the record \<open>session_spec\<close> (emotion,
    weather, loading flag, tracks), labelled with the component's events, and the
    abstraction \<open>abs_session\<close> of the component's state.  Lemmas: the abstraction
    commutes with each effect and each field update; every allowed step of a reachable
    state outside the situations \<open>diverges\<close> names is a step of the contract
    (\<open>step_refines\<close>), and so every such run of events is a run \<open>spec_run\<close> of
    the contract (\<open>controller_refinement\<close>, a simulation by induction on the run);
    the no-weather path is not a step of the contract (\<open>no_weather_divergence\<close>), and
    neither is a repeated detection of the mood shown (\<open>detected_same_mood_divergence\<close>).
  \<^item> \<open>Session\<close>, the view: \<open>render\<close> gives the title, the seven buttons (labels
    and emoji as code points, \<open>mood_emojis\<close>), the dialog button and dialog, the mood and
    weather lines, and the panel, whose song cards carry their index as React key.
  \<^item> this theory: the properties that span the mood tables, the selection and the
    session (the page gradient and quote always match the mood shown, also as rendered),
    and the end-to-end scenarios of the spec (Happy with Sunny weather, two overlapping
    searches; the no-weather scenario is the general theorem \<open>click_without_weather\<close>).

  \<^bold>\<open>Non-termination and the choice of model.\<close>  The selection loop has no bound on
  its rounds, so it is a partial function: \<open>None\<close> is a loop that never exits, and
  a handler that runs it returns \<open>None\<close> from \<open>step\<close>.  No fuel is chosen: the
  theorem \<open>pick_songs_terminates_iff\<close> says exactly which generators make it exit,
  \<open>pick_songs_returns_when_covered\<close> that it exits whenever every index is eventually
  drawn and enough songs came back, and \<open>search_response_short_hangs\<close> that a
  response of one or two songs hangs the page for every generator.  Scenarios run a
  list of events with \<open>run\<close>, which refuses an event the environment cannot send;
  the environment may click only the seven buttons.

  \<^bold>\<open>Findings.\<close>  The loop hangs for responses shorter than the drawn count (the spec
  asks for \<open>min(k, n)\<close>); a mood clicked before the weather is known leaves the
  spinner on (the spec asks to clear it); a new mood sends the search twice (click and
  effect); the last response to arrive wins, not the last request sent; the loop keeps
  positions distinct, not tracks; a response without \<^verbatim>\<open>tracks\<close> is treated as a
  failure with no notice; a position that arrives before the face models have loaded
  starts loading them a second time; a mood that names an \<^verbatim>\<open>Object.prototype\<close>
  member (\<^verbatim>\<open>constructor\<close>, \<^verbatim>\<open>toString\<close>, ...) makes \<^verbatim>\<open>getRandomQuote\<close> draw
  and return \<^verbatim>\<open>undefined\<close> instead of the empty string the spec promises for a mood
  with no quotes.  Against the SessionController contract the
  component departs in three places, which \<open>diverges\<close> names: a mood asked for
  without weather (spinner left on), a search result arriving when none is pending
  (shown, not discarded), and a mood the dialog reports again while songs are shown
  (no new request).

  \<^bold>\<open>Plan.\<close>  Modelled in this order, most important behaviour first: the selection
  loop and its contract (\<open>Selector\<close>); the session state machine with its handlers,
  effects and invariants (\<open>Session\<close>); the mood tables (\<open>MoodMapper\<close>); the view
  and the spec's scenarios (here).  Kinds of property stated so far: invariants over
  reachable states, refinement of the selection contract and the exact set of its
  outcomes, termination (an exact criterion, divergence, and liveness under coverage of
  the indices), the functional behaviour and error branch of every handler, bounds of
  \<^verbatim>\<open>randomCount\<close>, refinement of the SessionController contract with its named
  divergences, a round trip of the position through the weather request, and bounds
  on the number of lookups, and which steps return (all but the selection).  Still
  to come: the spec's corrected design (request sequence
  numbers, count capped at the number of songs) as a second model proved to meet the
  contract the code misses; search and weather responses restricted to one per
  request.

  \<^bold>\<open>Not modelled.\<close>  The face-detection models, the webcam dialog
  (\<^verbatim>\<open>WebcamModal\<close>, not in \<^verbatim>\<open>src/\<close>: modelled only as the event \<open>Detected\<close>),
  \<^verbatim>\<open>SongCard\<close> (display only, not in \<^verbatim>\<open>src/\<close>), the libraries the component only
  calls (the axios transport and promise scheduling, the geolocation package: a request
  is recorded by what is sent, a response arrives as an event), and the inline styles and MUI
  layout of the JSX, including the styled \<^verbatim>\<open>Item\<close> of lines 12--17 (constants with no
  behaviour).  Numbers are reals, not IEEE doubles; the position is given as the two
  coordinate strings JavaScript prints.  The quote lookup \<^verbatim>\<open>quotes[mood]\<close> covers the
  literal's own keys and the members every object inherits from
  \<^verbatim>\<open>Object.prototype\<close> (\<open>object_prototype_keys\<close>); a quote is a string or
  \<^verbatim>\<open>undefined\<close> (\<open>string option\<close>), and the view renders \<^verbatim>\<open>undefined\<close> as nothing.
\<close>

subsection \<open>Properties that span the components\<close>

text \<open>C8: in every reachable state with a (truthy) mood, the page gradient is the mood's
  gradient and the quote is one of the mood's quotes (empty for a mood with no pool).\<close>

theorem presentation_matches_mood:
  assumes "reach st" "emotion st = Some e" "e \<noteq> []"
  shows "background st = getBackgroundColor e \<and> quote_fits e (currentQuote st)"
  using reach_presentation_ok [OF assms(1)] assms(2,3) by (simp add: presentation_ok_def)

theorem presentation_matches_mood_witness:
  "\<exists>st. run [ClickMood ''Angry''] (mount (sconst (1/2)) :: nat app_state) = Some st \<and>
     reach st \<and> emotion st = Some ''Angry'' \<and> background st = getBackgroundColor ''Angry'' \<and>
     quote_fits ''Angry'' (currentQuote st)"
proof -
  obtain st where r: "run [ClickMood ''Angry''] (mount (sconst (1/2)) :: nat app_state) = Some st"
    by (simp add: session_eval)
  have "reach (mount (sconst (1/2)) :: nat app_state)" by (rule reach.mounted) (simp add: rng_simps)
  then have reach: "reach st" using r by (rule reach_run)
  moreover from r have e: "emotion st = Some ''Angry''" by (auto simp: session_eval)
  ultimately show ?thesis using r presentation_matches_mood [OF reach e] by simp
qed

text \<open>C11: responses are applied in the order they arrive, whichever request they
  answer.  A search for "Happy Sunny" answered after the later search for "Sad Sunny"
  puts Happy songs on the page while the mood shown is Sad (the spec asks that the
  latest request win).\<close>

theorem stale_response_displayed:
  "\<exists>st. run [GeoResult (Some (''1'', ''2'')), WeatherResponse (Some ''Sunny''),
             ClickMood ''Happy'', ClickMood ''Sad'',
             SearchResponse 2 (Some [11..<21]), SearchResponse 0 (Some [1..<11])]
           (mount ([1/2, 1/2, 0, 0, 1/10, 2/10, 0, 0, 1/10, 2/10] @- sconst 0) :: nat app_state)
         = Some st \<and>
     emotion st = Some ''Sad'' \<and> req_term (search_requests st ! 0) = ''Happy Sunny'' \<and>
     req_term (search_requests st ! 2) = ''Sad Sunny'' \<and> randomSongs st = [1, 2, 3] \<and>
     set (randomSongs st) \<subseteq> set [1..<11] \<and> set (randomSongs st) \<inter> set [11..<21] = {}"
proof -
  obtain st where r: "run [GeoResult (Some (''1'', ''2'')), WeatherResponse (Some ''Sunny''),
             ClickMood ''Happy'', ClickMood ''Sad'',
             SearchResponse 2 (Some [11..<21]), SearchResponse 0 (Some [1..<11])]
           (mount ([1/2, 1/2, 0, 0, 1/10, 2/10, 0, 0, 1/10, 2/10] @- sconst 0) :: nat app_state)
         = Some st"
    by (simp add: session_eval upt_rec)
  from r have "emotion st = Some ''Sad'' \<and> req_term (search_requests st ! 0) = ''Happy Sunny'' \<and>
     req_term (search_requests st ! 2) = ''Sad Sunny'' \<and> randomSongs st = [1, 2, 3]"
    by (auto simp: session_eval upt_rec insert_commute search_options_def)
  with r show ?thesis by (auto simp: upt_rec)
qed

text \<open>C14: the spec's end-to-end scenario.  From any reachable state where the weather
  is "Sunny", choosing Happy and receiving a non-empty response (if the handler returns)
  shows three to five songs at distinct positions of the response, the Happy gradient, a
  Happy quote, and no spinner.\<close>

theorem happy_sunny_scenario:
  assumes "reach st" "weather st = Some ''Sunny''" "0 < length hits"
    and "run [ClickMood ''Happy'', SearchResponse i (Some hits)] st = Some st'"
  shows "3 \<le> length (randomSongs st') \<and> length (randomSongs st') \<le> 5 \<and>
    select_spec hits (length (randomSongs st')) (randomSongs st') \<and>
    background st' = getBackgroundColor ''Happy'' \<and> quote_fits ''Happy'' (currentQuote st') \<and>
    \<not> loader st'"
proof -
  from assms(4) obtain st1 where s1: "step (ClickMood ''Happy'') st = Some st1"
    and en: "enabled (SearchResponse i (Some hits)) st1"
    and s2: "handle_search_response (Some hits) st1 = Some st'"
    by (auto simp: step_SearchResponse split: if_splits option.splits)
  have reach1: "reach st1" by (rule reach.stepped [OF assms(1) _ s1]) (simp add: enabled_def emotion_buttons_def)
  have reach': "reach st'" by (rule reach.stepped [OF reach1 en]) (simp add: step_SearchResponse s2)
  have wf: "rng_wf (rng st1)" using reach_session_inv [OF reach1] by (simp add: session_inv_def)
  from s2 assms(3) obtain sel rs where
    sel: "select_random_songs hits (rng st1) = Some (sel, rs)" and
    st': "st' = st1\<lparr>rng := rs, loader := False, randomSongs := sel\<rparr>"
    by (auto simp: handle_search_response_def split: option.splits)
  have spec: "select_spec hits (random_count (shd (rng st1))) sel"
    using select_random_songs_sound [OF sel wf assms(3)] by simp
  have bounds: "3 \<le> random_count (shd (rng st1)) \<and> random_count (shd (rng st1)) \<le> 5"
    using wf by (simp add: random_count_bounds rng_wf_shd)
  have "emotion st1 = Some ''Happy''"
    using s1 by (auto simp: step_def after_render_def Let_def)
  then have "emotion st' = Some ''Happy''" using st' by simp
  then have "background st' = getBackgroundColor ''Happy'' \<and> quote_fits ''Happy'' (currentQuote st')"
    using reach_presentation_ok [OF reach'] by (simp add: presentation_ok_def)
  with spec bounds st' show ?thesis by (simp add: select_spec_length)
qed

theorem happy_sunny_scenario_witness:
  "\<exists>st st'.
     run [GeoResult (Some (''1'', ''2'')), WeatherResponse (Some ''Sunny'')]
       (mount ([1/2, 0, 0, 1/10, 2/10] @- sconst 0) :: nat app_state) = Some st \<and>
     reach st \<and> weather st = Some ''Sunny'' \<and> 0 < length [1..<11 :: nat] \<and>
     run [ClickMood ''Happy'', SearchResponse 0 (Some [1..<11])] st = Some st' \<and>
     3 \<le> length (randomSongs st') \<and> \<not> loader st' \<and>
     background st' = getBackgroundColor ''Happy''"
proof -
  obtain st where r: "run [GeoResult (Some (''1'', ''2'')), WeatherResponse (Some ''Sunny'')]
       (mount ([1/2, 0, 0, 1/10, 2/10] @- sconst 0) :: nat app_state) = Some st"
    by (simp add: session_eval)
  obtain st' where rf: "run [GeoResult (Some (''1'', ''2'')), WeatherResponse (Some ''Sunny''),
       ClickMood ''Happy'', SearchResponse 0 (Some [1..<11])]
       (mount ([1/2, 0, 0, 1/10, 2/10] @- sconst 0) :: nat app_state) = Some st'"
    by (simp add: session_eval upt_rec)
  have r': "run [ClickMood ''Happy'', SearchResponse 0 (Some [1..<11])] st = Some st'"
    using run_append [of "[GeoResult (Some (''1'', ''2'')), WeatherResponse (Some ''Sunny'')]"
        "[ClickMood ''Happy'', SearchResponse 0 (Some [1..<11])]"
        "mount ([1/2, 0, 0, 1/10, 2/10] @- sconst 0) :: nat app_state"] r rf
    by simp
  have "reach (mount ([1/2, 0, 0, 1/10, 2/10] @- sconst 0) :: nat app_state)"
    by (rule reach.mounted) (simp add: rng_simps)
  then have reach: "reach st" using r by (rule reach_run)
  from r have w: "weather st = Some ''Sunny''" by (auto simp: session_eval)
  have n: "0 < length [1..<11 :: nat]" by simp
  note c = happy_sunny_scenario [OF reach w n r']
  from r reach w n r' c show ?thesis by blast
qed

text \<open>C25: whenever songs are on the page under a mood, the text under them is the
  rendering of the quote held, which is one of that mood's quotes, there are three to five song cards, and the cards are keyed
  \<open>0, 1, ...\<close> in the order of \<^verbatim>\<open>randomSongs\<close>, so the keys are distinct even when
  the response repeats a track.\<close>

theorem rendered_quote_matches_mood:
  assumes "reach st" "view_panel (render st) = SongGrid cards q"
    and "view_mood (render st) = Some (''Mood : '' @ e)"
  shows "q = quote_text (currentQuote st) \<and> quote_fits e (currentQuote st) \<and>
    3 \<le> length cards \<and> length cards \<le> 5 \<and>
    map fst cards = [0..<length cards] \<and> map snd cards = randomSongs st"
proof -
  from assms(2) have songs: "cards = enumerate 0 (randomSongs st)" "q = quote_text (currentQuote st)"
      "randomSongs st \<noteq> []"
    by (auto simp: render_def split: if_splits)
  from assms(3) have "emotion st = Some e" "e \<noteq> []"
    by (auto simp: render_def split: option.splits if_splits)
  then have "quote_fits e (currentQuote st)"
    using reach_presentation_ok [OF assms(1)] by (simp add: presentation_ok_def)
  moreover have "3 \<le> length (randomSongs st) \<and> length (randomSongs st) \<le> 5"
    using reach_session_inv [OF assms(1)] songs(3) by (simp add: session_inv_def)
  ultimately show ?thesis using songs by (simp add: enumerate_eq_zip)
qed

theorem rendered_quote_matches_mood_witness:
  "\<exists>st. run [GeoResult (Some (''1'', ''2'')), WeatherResponse (Some ''Sunny''), ClickMood ''Happy'',
            SearchResponse 0 (Some [1..<11])]
          (mount ([1/2, 0, 0, 1/10, 2/10] @- sconst 0) :: nat app_state) = Some st \<and>
     reach st \<and> view_panel (render st) = SongGrid [(0, 1), (1, 2), (2, 3)] (quote_text (currentQuote st)) \<and>
     view_mood (render st) = Some (''Mood : '' @ ''Happy'') \<and> quote_fits ''Happy'' (currentQuote st)"
proof -
  obtain st where r: "run [GeoResult (Some (''1'', ''2'')), WeatherResponse (Some ''Sunny''),
      ClickMood ''Happy'', SearchResponse 0 (Some [1..<11])]
      (mount ([1/2, 0, 0, 1/10, 2/10] @- sconst 0) :: nat app_state) = Some st"
    by (simp add: session_eval upt_rec)
  have "reach (mount ([1/2, 0, 0, 1/10, 2/10] @- sconst 0) :: nat app_state)"
    by (rule reach.mounted) (simp add: rng_simps)
  then have reach: "reach st" using r by (rule reach_run)
  from r have f: "loader st = False" "randomSongs st = [1, 2, 3]" "emotion st = Some ''Happy''"
    by (auto simp: session_eval upt_rec insert_commute)
  then have v: "view_panel (render st) = SongGrid [(0, 1), (1, 2), (2, 3)] (quote_text (currentQuote st))"
      "view_mood (render st) = Some (''Mood : '' @ ''Happy'')"
    by (simp_all add: render_def)
  from rendered_quote_matches_mood [OF reach v] reach r v show ?thesis by blast
qed

end
